theory Spec2Isabelle
  imports Main "HOL-Library.List_Lexorder" "HOL-Library.AList" "HOL-Library.Word"
begin

section \<open>Strings\<close>

text \<open>
  A Python \<open>str\<close> is a sequence of Unicode code points; it is modelled as a list of
  natural numbers, one per code point. Comparison of two \<open>str\<close> values in Python is
  lexicographic on the code points, which is the order that \<open>List_Lexorder\<close> puts
  on \<open>nat list\<close>. The function \<open>ascii\<close> turns an Isabelle string literal into
  such a list, so that the literals of the source can be written as they are.
\<close>

type_synonym str = "nat list"

definition ascii :: "string \<Rightarrow> str" where
  "ascii s = map of_char s"

text \<open>
  \<open>s.replace(old, new)\<close> where \<open>old\<close> is one character: every occurrence is replaced,
  from left to right, and the replacement text is not scanned again.
\<close>

definition replace_char :: "nat \<Rightarrow> str \<Rightarrow> str \<Rightarrow> str" where
  "replace_char old new s = concat (map (\<lambda>c. if c = old then new else [c]) s)"

section \<open>Content escaper\<close>

text \<open>
  \<open>html.escape(s)\<close> of the standard library, with its default \<open>quote=True\<close>: five
  replacements in this order, the ampersand first.
  Code points: 38 is \<open>&\<close>, 60 is \<open><\<close>, 62 is \<open>>\<close>, 34 is the double quote, 39 is the
  single quote.
\<close>

definition html_escape :: "str \<Rightarrow> str" where
  "html_escape s =
     replace_char 39 (ascii ''&#x27;'')
       (replace_char 34 (ascii ''&quot;'')
         (replace_char 62 (ascii ''&gt;'')
           (replace_char 60 (ascii ''&lt;'')
             (replace_char 38 (ascii ''&amp;'') s))))"

text \<open>
  Line 90 of \<open>generar_html\<close>: the three replacements applied to \<open>texto_escaped\<close>, the
  backslash (92) first, then the backtick (96), then the dollar sign (36).
\<close>

definition escape_js :: "str \<Rightarrow> str" where
  "escape_js texto_escaped =
     replace_char 36 [92, 36] (replace_char 96 [92, 96] (replace_char 92 [92, 92] texto_escaped))"

text \<open>Lines 88 to 90: \<open>texto_js\<close> as computed from the decoded text.\<close>

definition texto_js :: "str \<Rightarrow> str" where
  "texto_js texto = escape_js (html_escape texto)"

text \<open>
  Lines 91 to 97: the entry of one page in the script's array. 10 is the line feed.
\<close>

definition pagina_js :: "str \<Rightarrow> str \<Rightarrow> str \<Rightarrow> str" where
  \<open>pagina_js nombre b64 texto =
     ascii ''  {'' @ [10] @
     ascii ''    nombre: `'' @ html_escape nombre @ ascii ''`,'' @ [10] @
     ascii ''    imagen: "data:image/jpeg;base64,'' @ b64 @ ascii ''",'' @ [10] @
     ascii ''    texto: `'' @ texto_js texto @ ascii ''`'' @ [10] @
     ascii ''  }''\<close>

subsection \<open>The reading side\<close>

text \<open>
  What the reader of the generated document does with the two layers. These functions
  are not part of the generator; they describe the two inverse layers the specification
  speaks of.

  \<open>unescape_script\<close> reads the characters between the two backticks of a template
  literal: a backslash followed by a backslash, a backtick or a dollar sign stands for
  that character; a backtick that is not escaped would end the literal, a dollar
  sign that is not escaped and is followed by an opening brace (123) would start a
  substitution, and a backslash at the end would escape the closing backtick. In all
  these cases, and for every other escape sequence, the result is \<open>None\<close>.
\<close>

fun unescape_script :: "str \<Rightarrow> str option" where
  "unescape_script [] = Some []"
| "unescape_script (c # cs) =
     (if c = 92 then
        (case cs of
           [] \<Rightarrow> None
         | d # ds \<Rightarrow>
             if d = 92 \<or> d = 96 \<or> d = 36 then map_option ((#) d) (unescape_script ds)
             else None)
      else if c = 96 then None
      else if c = 36 \<and> take 1 cs = [123] then None
      else map_option ((#) c) (unescape_script cs))"

text \<open>
  \<open>template_inert s\<close>: the characters \<open>s\<close>, put between two backticks, are one template
  literal without substitution. The scan is the one of \<open>unescape_script\<close>; only the
  verdict is kept.
\<close>

fun template_inert :: "str \<Rightarrow> bool" where
  "template_inert [] = True"
| "template_inert (c # cs) =
     (if c = 92 then
        (case cs of
           [] \<Rightarrow> False
         | d # ds \<Rightarrow> (d = 92 \<or> d = 96 \<or> d = 36) \<and> template_inert ds)
      else if c = 96 then False
      else if c = 36 \<and> take 1 cs = [123] then False
      else template_inert cs)"

text \<open>
  \<open>html_unescape\<close> replaces the five character references that \<open>html.escape\<close> writes by
  the characters they stand for, from left to right; any other ampersand stays.
\<close>

fun html_unescape :: "str \<Rightarrow> str" where
  "html_unescape [] = []"
| "html_unescape (c # cs) =
     (if c = 38 \<and> take 4 cs = ascii ''amp;'' then 38 # html_unescape (drop 4 cs)
      else if c = 38 \<and> take 3 cs = ascii ''lt;'' then 60 # html_unescape (drop 3 cs)
      else if c = 38 \<and> take 3 cs = ascii ''gt;'' then 62 # html_unescape (drop 3 cs)
      else if c = 38 \<and> take 5 cs = ascii ''quot;'' then 34 # html_unescape (drop 5 cs)
      else if c = 38 \<and> take 5 cs = ascii ''#x27;'' then 39 # html_unescape (drop 5 cs)
      else c # html_unescape cs)"

section \<open>Files, paths and errors\<close>

text \<open>
  A byte is an 8-bit word. A path names a file by the directory it was found in and its
  name there: \<open>glob.glob(os.path.join(carpeta, patron))\<close> returns such paths, and
  \<open>Path(ruta).stem\<close> looks at the name only.

  The file system is what the program reads of it: \<open>listdir\<close> gives the entries of a
  directory in the order the operating system enumerates them (no entry for a
  directory that does not exist), \<open>glob_dirs\<close> gives, for a folder name read as a
  pattern, the directories that match it, \<open>contents\<close> gives the bytes of a file that
  can be opened for reading and \<open>None\<close> for one that cannot (missing, a directory, no
  permission), and \<open>writable\<close> tells whether a file can be opened for writing.

  The exceptions the program can meet are the values of \<open>error\<close>; a function that can
  raise returns \<open>error + 'a\<close>, with \<open>Inl\<close> for the exception.
\<close>

type_synonym byte = "8 word"

datatype path = Path (path_dir: str) (path_name: str)

datatype error = OSError path | UnicodeDecodeError | UnicodeEncodeError | KeyError str

record filesystem =
  listdir :: "str \<Rightarrow> str list"
  glob_dirs :: "str \<Rightarrow> str list"
  contents :: "path \<Rightarrow> byte list option"
  writable :: "path \<Rightarrow> bool"

section \<open>Codecs\<close>

text \<open>
  The three codecs \<open>leer_texto\<close> names, and the two error handlers it uses
  (\<open>errors="strict"\<close>, the default of \<open>open\<close>, and \<open>errors="replace"\<close>).
  A decoder returns \<open>None\<close> where Python raises \<open>UnicodeDecodeError\<close>.
\<close>

datatype encoding = UTF8 | Latin1 | CP1252

datatype errors_mode = Strict | Replace

text \<open>
  UTF-8 as CPython decodes it: the shortest form only, no surrogates (U+D800 to U+DFFF),
  nothing above U+10FFFF. \<open>utf8_first b bs\<close> reads the character that starts with the
  byte \<open>b\<close>, followed by \<open>bs\<close>; it returns the code point, or \<open>None\<close> for an
  ill-formed sequence, and the number of bytes of \<open>bs\<close> that belong to it. For an
  ill-formed sequence these are the bytes that were still well-formed (the maximal
  subpart), which the handler \<open>replace\<close> turns into one U+FFFD.
\<close>

definition continuation :: "byte \<Rightarrow> bool" where
  "continuation b = (0x80 \<le> b \<and> b \<le> 0xBF)"

definition second_of_3 :: "byte \<Rightarrow> byte \<Rightarrow> bool" where
  "second_of_3 b b1 =
     (if b = 0xE0 then 0xA0 \<le> b1 \<and> b1 \<le> 0xBF
      else if b = 0xED then 0x80 \<le> b1 \<and> b1 \<le> 0x9F
      else continuation b1)"

definition second_of_4 :: "byte \<Rightarrow> byte \<Rightarrow> bool" where
  "second_of_4 b b1 =
     (if b = 0xF0 then 0x90 \<le> b1 \<and> b1 \<le> 0xBF
      else if b = 0xF4 then 0x80 \<le> b1 \<and> b1 \<le> 0x8F
      else continuation b1)"

definition utf8_first :: "byte \<Rightarrow> byte list \<Rightarrow> nat option \<times> nat" where
  "utf8_first b bs =
     (if b < 0x80 then (Some (unat b), 0)
      else if b < 0xC2 then (None, 0)
      else if b < 0xE0 then
        (case bs of
           [] \<Rightarrow> (None, 0)
         | b1 # _ \<Rightarrow>
             if continuation b1 then (Some ((unat b - 0xC0) * 64 + (unat b1 - 0x80)), 1)
             else (None, 0))
      else if b < 0xF0 then
        (case bs of
           [] \<Rightarrow> (None, 0)
         | b1 # r1 \<Rightarrow>
             if \<not> second_of_3 b b1 then (None, 0)
             else
               (case r1 of
                  [] \<Rightarrow> (None, 1)
                | b2 # _ \<Rightarrow>
                    if continuation b2 then
                      (Some ((unat b - 0xE0) * 4096 + (unat b1 - 0x80) * 64 + (unat b2 - 0x80)), 2)
                    else (None, 1)))
      else if b < 0xF5 then
        (case bs of
           [] \<Rightarrow> (None, 0)
         | b1 # r1 \<Rightarrow>
             if \<not> second_of_4 b b1 then (None, 0)
             else
               (case r1 of
                  [] \<Rightarrow> (None, 1)
                | b2 # r2 \<Rightarrow>
                    if \<not> continuation b2 then (None, 1)
                    else
                      (case r2 of
                         [] \<Rightarrow> (None, 2)
                       | b3 # _ \<Rightarrow>
                           if continuation b3 then
                             (Some ((unat b - 0xF0) * 262144 + (unat b1 - 0x80) * 4096
                                    + (unat b2 - 0x80) * 64 + (unat b3 - 0x80)), 3)
                           else (None, 2))))
      else (None, 0))"

fun utf8_decode :: "errors_mode \<Rightarrow> byte list \<Rightarrow> str option" where
  "utf8_decode errs [] = Some []"
| "utf8_decode errs (b # bs) =
     (case utf8_first b bs of
        (Some cp, k) \<Rightarrow> map_option ((#) cp) (utf8_decode errs (drop k bs))
      | (None, k) \<Rightarrow>
          (case errs of
             Strict \<Rightarrow> None
           | Replace \<Rightarrow> map_option ((#) 0xFFFD) (utf8_decode errs (drop k bs))))"

text \<open>
  Windows-1252 as Python's \<open>cp1252\<close> has it: the bytes 0x80 to 0x9F go through the table
  below, where the five bytes 0x81, 0x8D, 0x8F, 0x90 and 0x9D are undefined; every
  other byte is the code point of the same value.
\<close>

definition cp1252_high :: "nat option list" where
  "cp1252_high =
     [Some 0x20AC, None, Some 0x201A, Some 0x0192, Some 0x201E, Some 0x2026, Some 0x2020,
      Some 0x2021, Some 0x02C6, Some 0x2030, Some 0x0160, Some 0x2039, Some 0x0152, None,
      Some 0x017D, None,
      None, Some 0x2018, Some 0x2019, Some 0x201C, Some 0x201D, Some 0x2022, Some 0x2013,
      Some 0x2014, Some 0x02DC, Some 0x2122, Some 0x0161, Some 0x203A, Some 0x0153, None,
      Some 0x017E, Some 0x0178]"

definition cp1252_char :: "byte \<Rightarrow> nat option" where
  "cp1252_char b =
     (if 0x80 \<le> b \<and> b \<le> 0x9F then cp1252_high ! (unat b - 0x80) else Some (unat b))"

fun cp1252_decode :: "errors_mode \<Rightarrow> byte list \<Rightarrow> str option" where
  "cp1252_decode errs [] = Some []"
| "cp1252_decode errs (b # bs) =
     (case cp1252_char b of
        Some cp \<Rightarrow> map_option ((#) cp) (cp1252_decode errs bs)
      | None \<Rightarrow>
          (case errs of
             Strict \<Rightarrow> None
           | Replace \<Rightarrow> map_option ((#) 0xFFFD) (cp1252_decode errs bs)))"

text \<open>Latin-1 gives every byte the code point of the same value.\<close>

fun decode :: "encoding \<Rightarrow> errors_mode \<Rightarrow> byte list \<Rightarrow> str option" where
  "decode UTF8 errs datos = utf8_decode errs datos"
| "decode Latin1 errs datos = Some (map unat datos)"
| "decode CP1252 errs datos = cp1252_decode errs datos"

section \<open>Text decoder\<close>

text \<open>
  \<open>open(ruta, "r", encoding=enc, errors=errs).read()\<close>: the file is opened, which raises
  \<open>OSError\<close> when it cannot be; its bytes are decoded, which raises
  \<open>UnicodeDecodeError\<close> where the codec does; and, since \<open>newline\<close> is left at its
  default, the line endings CR LF (13, 10) and CR are given as LF.
\<close>

fun translate_newlines :: "str \<Rightarrow> str" where
  "translate_newlines [] = []"
| "translate_newlines [c] = (if c = 13 then [10] else [c])"
| "translate_newlines (c # d # cs) =
     (if c = 13 \<and> d = 10 then 10 # translate_newlines cs
      else if c = 13 then 10 # translate_newlines (d # cs)
      else c # translate_newlines (d # cs))"

definition read_text :: "filesystem \<Rightarrow> path \<Rightarrow> encoding \<Rightarrow> errors_mode \<Rightarrow> error + str" where
  "read_text fs ruta enc errs =
     (case contents fs ruta of
        None \<Rightarrow> Inl (OSError ruta)
      | Some datos \<Rightarrow>
          (case decode enc errs datos of
             None \<Rightarrow> Inl UnicodeDecodeError
           | Some s \<Rightarrow> Inr (translate_newlines s)))"

text \<open>
  \<open>leer_texto\<close>, lines 36 to 46. The loop over the encodings returns at the first read
  that succeeds and goes on after a \<open>UnicodeDecodeError\<close> (\<open>UnicodeError\<close> has no other
  instance here); any other exception leaves the function. After the loop comes the
  read with \<open>errors="replace"\<close>.
\<close>

fun leer_texto_loop :: "filesystem \<Rightarrow> path \<Rightarrow> encoding list \<Rightarrow> error + str" where
  "leer_texto_loop fs ruta_txt [] = read_text fs ruta_txt UTF8 Replace"
| "leer_texto_loop fs ruta_txt (enc # encs) =
     (case read_text fs ruta_txt enc Strict of
        Inr s \<Rightarrow> Inr s
      | Inl UnicodeDecodeError \<Rightarrow> leer_texto_loop fs ruta_txt encs
      | Inl e \<Rightarrow> Inl e)"

definition leer_texto :: "filesystem \<Rightarrow> path \<Rightarrow> error + str" where
  "leer_texto fs ruta_txt = leer_texto_loop fs ruta_txt [UTF8, Latin1, CP1252]"

section \<open>Image encoder\<close>

text \<open>
  \<open>base64.b64encode\<close>: three bytes are 24 bits, written as four characters of the
  alphabet, six bits each; a last group of one or two bytes is filled with zero bits and
  closed with the padding character \<open>=\<close> (0x3D). The result is a byte string.
\<close>

definition b64_alphabet :: str where
  "b64_alphabet = ascii ''ABCDEFGHIJKLMNOPQRSTUVWXYZabcdefghijklmnopqrstuvwxyz0123456789+/''"

definition b64_char :: "nat \<Rightarrow> byte" where
  "b64_char i = of_nat (b64_alphabet ! i)"

fun b64encode :: "byte list \<Rightarrow> byte list" where
  "b64encode [] = []"
| "b64encode [a] =
     (let n = unat a * 65536
      in [b64_char (n div 262144), b64_char (n div 4096 mod 64), 0x3D, 0x3D])"
| "b64encode [a, b] =
     (let n = unat a * 65536 + unat b * 256
      in [b64_char (n div 262144), b64_char (n div 4096 mod 64), b64_char (n div 64 mod 64),
          0x3D])"
| "b64encode (a # b # c # rest) =
     (let n = unat a * 65536 + unat b * 256 + unat c
      in [b64_char (n div 262144), b64_char (n div 4096 mod 64), b64_char (n div 64 mod 64),
          b64_char (n mod 64)] @ b64encode rest)"

text \<open>
  \<open>imagen_a_base64\<close>, lines 29 to 33: the file is read in binary mode, encoded, and the
  byte string is decoded as UTF-8 into a \<open>str\<close>.
\<close>

definition imagen_a_base64 :: "filesystem \<Rightarrow> path \<Rightarrow> error + str" where
  "imagen_a_base64 fs ruta_imagen =
     (case contents fs ruta_imagen of
        None \<Rightarrow> Inl (OSError ruta_imagen)
      | Some datos \<Rightarrow>
          (case decode UTF8 Strict (b64encode datos) of
             None \<Rightarrow> Inl UnicodeDecodeError
           | Some s \<Rightarrow> Inr s))"

text \<open>
  The reading side: the decoding of base-64 text, as the reader of a data URI does it.
  The text is taken in groups of four characters; the last group may end in one or two
  padding characters (61). Text that is not of this form gives \<open>None\<close>.
\<close>

definition b64_index :: "nat \<Rightarrow> nat option" where
  "b64_index c = map_of (zip b64_alphabet [0..<64]) c"

fun b64decode :: "str \<Rightarrow> byte list option" where
  "b64decode [] = Some []"
| "b64decode (c0 # c1 # c2 # c3 # rest) =
     (case (b64_index c0, b64_index c1) of
        (Some i0, Some i1) \<Rightarrow>
          if c2 = 61 \<and> c3 = 61 \<and> rest = [] then
            (let n = (i0 * 64 + i1) * 4096 in Some [of_nat (n div 65536)])
          else
            (case b64_index c2 of
               None \<Rightarrow> None
             | Some i2 \<Rightarrow>
                 if c3 = 61 \<and> rest = [] then
                   (let n = ((i0 * 64 + i1) * 64 + i2) * 64
                    in Some [of_nat (n div 65536), of_nat (n div 256 mod 256)])
                 else
                   (case b64_index c3 of
                      None \<Rightarrow> None
                    | Some i3 \<Rightarrow>
                        (let n = ((i0 * 64 + i1) * 64 + i2) * 64 + i3
                         in map_option
                              ((@) [of_nat (n div 65536), of_nat (n div 256 mod 256),
                                    of_nat (n mod 256)])
                              (b64decode rest))))
      | _ \<Rightarrow> None)"
| "b64decode _ = None"

section \<open>File pairer\<close>

text \<open>
  \<open>str.lower\<close> follows the case mapping of the Unicode tables of the Python runtime.
  The pairing functions take it as the parameter \<open>lower\<close>, and what is proved of them
  holds for every function in its place. \<open>ascii_lower\<close> is \<open>str.lower\<close> on text whose
  letters are ASCII; the examples use it.
\<close>

definition ascii_lower :: "str \<Rightarrow> str" where
  "ascii_lower s = map (\<lambda>c. if 65 \<le> c \<and> c \<le> 90 then c + 32 else c) s"

text \<open>
  \<open>s.rfind(c)\<close> for a character \<open>c\<close>: the index of its last occurrence, \<open>None\<close> where
  Python gives \<open>-1\<close>. \<open>Path(ruta).stem\<close>, as \<open>pathlib\<close> defines it on the name of the
  file: the name up to its last dot (46), unless that dot is the first or the last
  character of the name.
\<close>

definition rfind :: "nat \<Rightarrow> str \<Rightarrow> nat option" where
  "rfind c s =
     (if c \<in> set s then Some (length s - 1 - length (takeWhile (\<lambda>x. x \<noteq> c) (rev s)))
      else None)"

definition path_stem :: "path \<Rightarrow> str" where
  "path_stem ruta =
     (let name = path_name ruta
      in case rfind 46 name of
           None \<Rightarrow> name
         | Some i \<Rightarrow> if 0 < i \<and> i < length name - 1 then take i name else name)"

text \<open>
  \<open>glob.glob(os.path.join(carpeta, patron))\<close> for the patterns of this program, a star
  (42) followed by literal text. In one directory, \<open>glob1\<close> gives the entries, in the
  order of enumeration, whose name ends with that text and does not begin with a dot; the
  comparison is exact, as it is where \<open>os.path.normcase\<close> is the identity. The folder
  name is itself read as a pattern when it holds one of the characters \<open>*\<close>, \<open>?\<close> and
  \<open>[\<close> (42, 63, 91): then the directories searched are those that match it, and
  otherwise the folder alone.
\<close>

definition fnmatch :: "str \<Rightarrow> str \<Rightarrow> bool" where
  "fnmatch name pat =
     (case pat of
        [] \<Rightarrow> name = []
      | c # suf \<Rightarrow>
          if c = 42 then length suf \<le> length name \<and> drop (length name - length suf) name = suf
          else name = pat)"

definition has_magic :: "str \<Rightarrow> bool" where
  "has_magic s = (42 \<in> set s \<or> 63 \<in> set s \<or> 91 \<in> set s)"

definition glob1 :: "filesystem \<Rightarrow> str \<Rightarrow> str \<Rightarrow> path list" where
  "glob1 fs dirname pat =
     map (Path dirname)
       (filter (\<lambda>name. take 1 name \<noteq> [46] \<and> fnmatch name pat) (listdir fs dirname))"

definition glob_glob :: "filesystem \<Rightarrow> str \<Rightarrow> str \<Rightarrow> path list" where
  "glob_glob fs carpeta pat =
     concat (map (\<lambda>dirname. glob1 fs dirname pat)
       (if has_magic carpeta then glob_dirs fs carpeta else [carpeta]))"

text \<open>
  Lines 52 to 63 of \<open>emparejar_archivos\<close>. The two nested loops visit the files
  pattern by pattern, the patterns being the tuples of lines 53 and 60; \<open>rutas_img\<close> and
  \<open>rutas_txt\<close> are the files in the order visited.
  A \<open>dict\<close> is an association list: assigning to a key that is present replaces its
  value, assigning to a new key adds it.
\<close>

definition patrones_img :: "str list" where
  "patrones_img = [ascii ''*.jpg'', ascii ''*.JPG'', ascii ''*.jpeg'', ascii ''*.JPEG'']"

definition patrones_txt :: "str list" where
  "patrones_txt = [ascii ''*.txt'', ascii ''*.TXT'']"

definition rutas_img :: "filesystem \<Rightarrow> str \<Rightarrow> path list" where
  "rutas_img fs carpeta_img = concat (map (glob_glob fs carpeta_img) patrones_img)"

definition rutas_txt :: "filesystem \<Rightarrow> str \<Rightarrow> path list" where
  "rutas_txt fs carpeta_txt = concat (map (glob_glob fs carpeta_txt) patrones_txt)"

definition recoger :: "(str \<Rightarrow> str) \<Rightarrow> path list \<Rightarrow> (str \<times> path) list" where
  "recoger lower rutas =
     foldl (\<lambda>d ruta. AList.update (lower (path_stem ruta)) ruta d) [] rutas"

text \<open>
  Lines 66 to 75. A page record is the dictionary with the keys \<open>nombre\<close>, \<open>ruta_img\<close>
  and \<open>ruta_txt\<close>. Reading a dictionary at a key it does not have raises \<open>KeyError\<close>.
\<close>

record par =
  nombre :: str
  ruta_img :: path
  ruta_txt :: path

fun armar_pares :: "(str \<times> path) list \<Rightarrow> (str \<times> path) list \<Rightarrow> str list \<Rightarrow> error + par list" where
  "armar_pares imagenes textos [] = Inr []"
| "armar_pares imagenes textos (n # resto) =
     (case map_of imagenes n of
        None \<Rightarrow> Inl (KeyError n)
      | Some img \<Rightarrow>
          (case map_of textos n of
             None \<Rightarrow> Inl (KeyError n)
           | Some txt \<Rightarrow>
               (case armar_pares imagenes textos resto of
                  Inl e \<Rightarrow> Inl e
                | Inr pares \<Rightarrow>
                    Inr (\<lparr>nombre = path_stem img, ruta_img = img, ruta_txt = txt\<rparr> # pares))))"

definition emparejar_archivos :: "(str \<Rightarrow> str) \<Rightarrow> filesystem \<Rightarrow> str \<Rightarrow> str \<Rightarrow> error + par list" where
  "emparejar_archivos lower fs carpeta_img carpeta_txt =
     (let imagenes = recoger lower (rutas_img fs carpeta_img);
          textos = recoger lower (rutas_txt fs carpeta_txt);
          nombres_comunes = sorted_list_of_set (set (map fst imagenes) \<inter> set (map fst textos))
      in armar_pares imagenes textos nombres_comunes)"

text \<open>
  The match key of a file is the lower-cased stem of its name; \<open>claves\<close> is the set of
  the keys of a list of files.
\<close>

definition claves :: "(str \<Rightarrow> str) \<Rightarrow> path list \<Rightarrow> str set" where
  "claves lower rutas = set (map (\<lambda>ruta. lower (path_stem ruta)) rutas)"

text \<open>
  What the specification calls the image files and the text files of a directory
  (its section 4.1): the entries whose name ends in \<open>.jpg\<close> or \<open>.jpeg\<close>, and in
  \<open>.txt\<close>, whatever the case of the letters. These definitions follow the words of the
  specification, not the code; the code's own search is \<open>rutas_img\<close> and \<open>rutas_txt\<close>.
\<close>

definition ends_with_ci :: "str \<Rightarrow> str \<Rightarrow> bool" where
  "ends_with_ci name ext =
     (length ext \<le> length name \<and> ascii_lower (drop (length name - length ext) name) = ext)"

definition imagenes_presentes :: "filesystem \<Rightarrow> str \<Rightarrow> path list" where
  "imagenes_presentes fs carpeta =
     map (Path carpeta)
       (filter (\<lambda>name. ends_with_ci name (ascii ''.jpg'') \<or> ends_with_ci name (ascii ''.jpeg''))
          (listdir fs carpeta))"

definition textos_presentes :: "filesystem \<Rightarrow> str \<Rightarrow> path list" where
  "textos_presentes fs carpeta =
     map (Path carpeta) (filter (\<lambda>name. ends_with_ci name (ascii ''.txt'')) (listdir fs carpeta))"


section \<open>Artifact assembler\<close>

text \<open>
  The loop of \<open>generar_html\<close>, lines 83 to 97: for every pair, in order, the image is
  read and encoded, the text is read and escaped, and the entry of the page is added to
  \<open>paginas_js\<close>. An exception raised by a read leaves the loop and the function.
\<close>

fun procesar_pares :: "filesystem \<Rightarrow> par list \<Rightarrow> error + str list" where
  "procesar_pares fs [] = Inr []"
| "procesar_pares fs (p # resto) =
     (case imagen_a_base64 fs (ruta_img p) of
        Inl e \<Rightarrow> Inl e
      | Inr b64 \<Rightarrow>
          (case leer_texto fs (ruta_txt p) of
             Inl e \<Rightarrow> Inl e
           | Inr texto \<Rightarrow>
               (case procesar_pares fs resto of
                  Inl e \<Rightarrow> Inl e
                | Inr paginas_js \<Rightarrow> Inr (pagina_js (nombre p) b64 texto # paginas_js))))"

text \<open>\<open>sep.join(xs)\<close>.\<close>

fun str_join :: "str \<Rightarrow> str list \<Rightarrow> str" where
  "str_join sep [] = []"
| "str_join sep [x] = x"
| "str_join sep (x # y # ys) = x @ sep @ str_join sep (y # ys)"

text \<open>
  The UTF-8 encoding of a \<open>str\<close>; a surrogate (U+D800 to U+DFFF) has none, and encoding
  it raises \<open>UnicodeEncodeError\<close>.
\<close>

definition utf8_encode_char :: "nat \<Rightarrow> byte list option" where
  "utf8_encode_char cp =
     (if cp < 0x80 then Some [of_nat cp]
      else if cp < 0x800 then Some [of_nat (0xC0 + cp div 64), of_nat (0x80 + cp mod 64)]
      else if 0xD800 \<le> cp \<and> cp \<le> 0xDFFF then None
      else if cp < 0x10000 then
        Some [of_nat (0xE0 + cp div 4096), of_nat (0x80 + cp div 64 mod 64),
              of_nat (0x80 + cp mod 64)]
      else if cp < 0x110000 then
        Some [of_nat (0xF0 + cp div 262144), of_nat (0x80 + cp div 4096 mod 64),
              of_nat (0x80 + cp div 64 mod 64), of_nat (0x80 + cp mod 64)]
      else None)"

fun utf8_encode :: "str \<Rightarrow> byte list option" where
  "utf8_encode [] = Some []"
| "utf8_encode (cp # s) =
     (case utf8_encode_char cp of
        None \<Rightarrow> None
      | Some bs \<Rightarrow> map_option ((@) bs) (utf8_encode s))"

text \<open>
  Lines 450 and 451: \<open>open(ruta_salida, "w", encoding="utf-8")\<close> raises \<open>OSError\<close> when
  the file cannot be opened for writing, and empties the file otherwise; \<open>f.write\<close>
  encodes the text and writes the bytes. The result is the exception, if any, and the
  file system afterwards.
\<close>

definition write_text :: "filesystem \<Rightarrow> path \<Rightarrow> str \<Rightarrow> (error + unit) \<times> filesystem" where
  "write_text fs ruta s =
     (if \<not> writable fs ruta then (Inl (OSError ruta), fs)
      else
        (case utf8_encode s of
           None \<Rightarrow> (Inl UnicodeEncodeError, fs\<lparr>contents := (contents fs)(ruta := Some [])\<rparr>)
         | Some bs \<Rightarrow> (Inr (), fs\<lparr>contents := (contents fs)(ruta := Some bs)\<rparr>)))"

text \<open>
  \<open>generar_html\<close>, lines 78 to 461, without what it prints. The fixed text of the
  document, lines 102 to 448, is a parameter: \<open>cabecera\<close> is the text before
  \<open>{paginas_str}\<close> and \<open>pie\<close> the text after it.
\<close>

definition generar_html ::
  "str \<Rightarrow> str \<Rightarrow> filesystem \<Rightarrow> par list \<Rightarrow> path \<Rightarrow> (error + unit) \<times> filesystem" where
  "generar_html cabecera pie fs pares ruta_salida =
     (case procesar_pares fs pares of
        Inl e \<Rightarrow> (Inl e, fs)
      | Inr paginas_js \<Rightarrow>
          (let paginas_str = str_join (ascii '','' @ [10]) paginas_js;
               html_contenido = cabecera @ paginas_str @ pie
           in write_text fs ruta_salida html_contenido))"

section \<open>Example file systems\<close>

text \<open>
  Small file systems on which the functions above are run. The file \<open>a.txt\<close> holds
  the UTF-8 bytes of \<open>c\<close>, U+00E9, CR, LF and U+20AC; the bytes of \<open>b.txt\<close> are
  well-formed neither in UTF-8 nor in Windows-1252; \<open>c.txt\<close> is the ASCII text
  \<open>a\<close>, CR, LF, \<open>b\<close>, CR; \<open>d.txt\<close> holds the byte 0xE9, which is not UTF-8
  here, then CR, LF and \<open>b\<close>; and \<open>e.txt\<close> is \<open>a.txt\<close> without its line ending.
\<close>

definition fs_textos :: filesystem where
  "fs_textos =
     \<lparr>listdir = (\<lambda>_. []), glob_dirs = (\<lambda>_. []),
      contents = (\<lambda>p. if p = Path (ascii ''txt'') (ascii ''a.txt'')
                         then Some [0x63, 0xC3, 0xA9, 0x0D, 0x0A, 0xE2, 0x82, 0xAC]
                       else if p = Path (ascii ''txt'') (ascii ''b.txt'')
                         then Some [0x63, 0xE9, 0x81, 0xFF]
                       else if p = Path (ascii ''txt'') (ascii ''c.txt'')
                         then Some [0x61, 0x0D, 0x0A, 0x62, 0x0D]
                       else if p = Path (ascii ''txt'') (ascii ''d.txt'')
                         then Some [0xE9, 0x0D, 0x0A, 0x62]
                       else if p = Path (ascii ''txt'') (ascii ''e.txt'')
                         then Some [0x63, 0xC3, 0xA9, 0xE2, 0x82, 0xAC]
                       else None),
      writable = (\<lambda>_. True)\<rparr>"

definition fs_imagenes :: filesystem where
  "fs_imagenes =
     \<lparr>listdir = (\<lambda>_. []), glob_dirs = (\<lambda>_. []),
      contents = (\<lambda>p. if p = Path (ascii ''img'') (ascii ''a.jpg'')
                         then Some [0xFF, 0xD8, 0xFF, 0xE0, 0x00]
                       else if p = Path (ascii ''img'') (ascii ''vacio.jpg'')
                         then Some []
                       else None),
      writable = (\<lambda>_. True)\<rparr>"

text \<open>
  The directories of the scenario: three images, one of them with an upper-case name and
  extension, and two texts.
\<close>

definition fs_paginas :: filesystem where
  "fs_paginas =
     \<lparr>listdir = (\<lambda>d. if d = ascii ''img''
                        then [ascii ''pagina_001.jpg'', ascii ''PAGINA_002.JPG'', ascii ''extra.jpg'']
                      else if d = ascii ''txt''
                        then [ascii ''pagina_001.txt'', ascii ''pagina_002.txt'']
                      else []),
      glob_dirs = (\<lambda>_. []),
      contents = (\<lambda>_. None),
      writable = (\<lambda>_. True)\<rparr>"

text \<open>
  A directory in which three images have the same key, on a file system that tells
  upper-case names from lower-case ones.
\<close>

definition fs_duplicados :: filesystem where
  "fs_duplicados =
     \<lparr>listdir = (\<lambda>d. if d = ascii ''img''
                        then [ascii ''a.JPG'', ascii ''A.jpg'', ascii ''a.jpg'']
                      else if d = ascii ''txt'' then [ascii ''a.txt'']
                      else []),
      glob_dirs = (\<lambda>_. []),
      contents = (\<lambda>_. None),
      writable = (\<lambda>_. True)\<rparr>"

text \<open>
  Two pairs, of which the second has lost its text file after the pairing.
\<close>

definition fs_falta :: filesystem where
  "fs_falta =
     \<lparr>listdir = (\<lambda>_. []), glob_dirs = (\<lambda>_. []),
      contents = (\<lambda>p. if p = Path (ascii ''img'') (ascii ''a.jpg'') then Some [0xFF, 0xD8]
                       else if p = Path (ascii ''txt'') (ascii ''a.txt'') then Some [0x61]
                       else if p = Path (ascii ''img'') (ascii ''b.jpg'') then Some [0xFF, 0xD8]
                       else None),
      writable = (\<lambda>_. True)\<rparr>"

definition pares_falta :: "par list" where
  "pares_falta =
     [\<lparr>nombre = ascii ''a'', ruta_img = Path (ascii ''img'') (ascii ''a.jpg''),
        ruta_txt = Path (ascii ''txt'') (ascii ''a.txt'')\<rparr>,
      \<lparr>nombre = ascii ''b'', ruta_img = Path (ascii ''img'') (ascii ''b.jpg''),
        ruta_txt = Path (ascii ''txt'') (ascii ''b.txt'')\<rparr>]"

text \<open>
  An image whose extension is spelled \<open>.Jpg\<close>, with its text; and a folder whose name,
  \<open>img[1]\<close>, is a pattern that the folder \<open>img1\<close> matches.
\<close>

definition fs_mixto :: filesystem where
  "fs_mixto =
     \<lparr>listdir = (\<lambda>d. if d = ascii ''img'' then [ascii ''a.Jpg'']
                      else if d = ascii ''txt'' then [ascii ''a.txt'']
                      else []),
      glob_dirs = (\<lambda>_. []),
      contents = (\<lambda>_. None),
      writable = (\<lambda>_. True)\<rparr>"

definition fs_patron :: filesystem where
  "fs_patron =
     \<lparr>listdir = (\<lambda>d. if d = ascii ''img[1]'' then [ascii ''a.jpg'']
                      else if d = ascii ''img1'' then [ascii ''b.jpg'']
                      else []),
      glob_dirs = (\<lambda>d. if d = ascii ''img[1]'' then [ascii ''img1''] else []),
      contents = (\<lambda>_. None),
      writable = (\<lambda>_. True)\<rparr>"

text \<open>
  A pair whose name holds an ampersand, angle brackets, double quotes, a backtick, a
  dollar sign and, at its end, a single quote (39) and a backslash (92).
\<close>

definition par_raro :: par where
  \<open>par_raro =
     \<lparr>nombre = ascii ''R&D <a> "q" `${x}`'' @ [39, 92],
      ruta_img = Path (ascii ''img'') (ascii ''a.jpg''),
      ruta_txt = Path (ascii ''txt'') (ascii ''a.txt'')\<rparr>\<close>

section \<open>Properties of the content escaper\<close>

lemma replace_char_Nil: "replace_char old new [] = []"
  by (simp add: replace_char_def)

lemma replace_char_Cons:
  "replace_char old new (c # s) = (if c = old then new else [c]) @ replace_char old new s"
  by (simp add: replace_char_def)

lemma replace_char_append:
  "replace_char old new (s @ t) = replace_char old new s @ replace_char old new t"
  by (simp add: replace_char_def)

text \<open>The five replacements of \<open>html.escape\<close> act on each character on its own.\<close>

lemma html_escape_Nil: "html_escape [] = []"
  by (simp add: html_escape_def replace_char_Nil)

lemma html_escape_Cons:
  "html_escape (c # s) =
     (if c = 38 then ascii ''&amp;'' else if c = 60 then ascii ''&lt;''
      else if c = 62 then ascii ''&gt;'' else if c = 34 then ascii ''&quot;''
      else if c = 39 then ascii ''&#x27;'' else [c]) @ html_escape s"
  by (simp add: html_escape_def replace_char_Cons replace_char_append replace_char_Nil ascii_def)

lemma html_escape_append: "html_escape (s @ t) = html_escape s @ html_escape t"
  by (induction s) (simp_all add: html_escape_Nil html_escape_Cons)

lemma html_unescape_escape: "html_unescape (html_escape s) = s"
  by (induction s) (simp_all add: html_escape_Nil html_escape_Cons ascii_def)

lemma escape_js_Nil: "escape_js [] = []"
  by (simp add: escape_js_def replace_char_Nil)

lemma escape_js_Cons:
  "escape_js (c # s) = (if c = 92 \<or> c = 96 \<or> c = 36 then [92, c] else [c]) @ escape_js s"
  by (simp add: escape_js_def replace_char_Cons replace_char_append replace_char_Nil)

lemma escape_js_concat:
  "escape_js s = concat (map (\<lambda>c. if c = 92 \<or> c = 96 \<or> c = 36 then [92, c] else [c]) s)"
  by (induction s) (simp_all add: escape_js_Nil escape_js_Cons)

lemma unescape_script_escape_js: "unescape_script (escape_js s) = Some s"
  by (induction s) (simp_all add: escape_js_Nil escape_js_Cons)

lemma template_inert_escape_js: "template_inert (escape_js s)"
  by (induction s) (simp_all add: escape_js_Nil escape_js_Cons)

lemma count_backslash_html_escape: "count_list (html_escape s) 92 = count_list s 92"
  by (induction s) (simp_all add: html_escape_Nil html_escape_Cons ascii_def)

text \<open>
  Claim C2. For every text \<open>T\<close>, undoing the script-literal layer of \<open>texto_js T\<close> and then
  undoing the markup layer gives \<open>T\<close> back; in particular for a text that holds an
  ampersand, both angle brackets, a backtick, a backslash and a dollar sign.
\<close>

theorem escape_round_trip:
  "map_option html_unescape (unescape_script (texto_js T)) = Some T"
  by (simp add: texto_js_def unescape_script_escape_js html_unescape_escape)

theorem escape_round_trip_witness:
  "map_option html_unescape
     (unescape_script (texto_js (ascii ''a & b < c > d ` e '' @ [92] @ ascii '' f $ g'')))
   = Some (ascii ''a & b < c > d ` e '' @ [92] @ ascii '' f $ g'')"
  using escape_round_trip [of "ascii ''a & b < c > d ` e '' @ [92] @ ascii '' f $ g''"] by simp

text \<open>
  Claim C3. In \<open>texto_js T\<close> every backslash, backtick and dollar sign of the
  markup-escaped text \<open>html_escape T\<close> is preceded by one escaping backslash and no other
  character is changed, so the backslashes that escape are not escaped again; the
  result, between two backticks, is one template literal without substitution; and
  from the text \<open>`${evil}`\<close> comes \<open>\`\${evil}\`\<close>.
\<close>

theorem texto_js_inert:
  "texto_js T =
     concat (map (\<lambda>c. if c = 92 \<or> c = 96 \<or> c = 36 then [92, c] else [c]) (html_escape T))
   \<and> template_inert (texto_js T)
   \<and> unescape_script (texto_js T) = Some (html_escape T)
   \<and> texto_js (ascii ''`${evil}`'') = [92, 96, 92, 36] @ ascii ''{evil}'' @ [92, 96]"
proof -
  have "texto_js (ascii ''`${evil}`'') = [92, 96, 92, 36] @ ascii ''{evil}'' @ [92, 96]"
    by (simp add: texto_js_def html_escape_Cons html_escape_Nil escape_js_Cons escape_js_Nil
        ascii_def)
  then show ?thesis
    by (simp add: texto_js_def escape_js_concat [symmetric] template_inert_escape_js
        unescape_script_escape_js)
qed

theorem texto_js_inert_witness:
  "template_inert (texto_js (ascii ''`${evil}`''))
   \<and> \<not> template_inert (ascii ''`${evil}`'')"
proof -
  have "template_inert (texto_js (ascii ''`${evil}`''))"
    using texto_js_inert [of "ascii ''`${evil}`''"] by blast
  moreover have "\<not> template_inert (ascii ''`${evil}`'')"
    by (simp add: ascii_def)
  ultimately show ?thesis by blast
qed

text \<open>\<open>html.escape\<close>, character by character.\<close>

lemma html_escape_concat:
  "html_escape s =
     concat (map (\<lambda>c. if c = 38 then ascii ''&amp;'' else if c = 60 then ascii ''&lt;''
                      else if c = 62 then ascii ''&gt;'' else if c = 34 then ascii ''&quot;''
                      else if c = 39 then ascii ''&#x27;'' else [c]) s)"
  by (induction s) (simp_all add: html_escape_Nil html_escape_Cons)

section \<open>Base-64\<close>

lemma b64_alphabet_props:
  "length b64_alphabet = 64" "distinct b64_alphabet" "61 \<notin> set b64_alphabet"
  "\<forall>c\<in>set b64_alphabet. c < 128"
  by (simp_all add: b64_alphabet_def ascii_def)

lemma unat_b64_char: "i < 64 \<Longrightarrow> unat (b64_char i) = b64_alphabet ! i"
proof -
  assume "i < 64"
  then have "b64_alphabet ! i < 128"
    using b64_alphabet_props(1,4) nth_mem [of i b64_alphabet] by simp
  then show ?thesis
    by (simp add: b64_char_def unat_of_nat)
qed

lemma b64_index_char: "i < 64 \<Longrightarrow> b64_index (unat (b64_char i)) = Some i"
  unfolding b64_index_def
  using map_of_zip_nth [of b64_alphabet "[0..<64]" i]
  by (simp add: b64_alphabet_props unat_b64_char)

lemma b64_char_not_pad: "i < 64 \<Longrightarrow> unat (b64_char i) \<noteq> 61"
proof -
  assume i: "i < 64"
  then have "b64_alphabet ! i \<in> set b64_alphabet"
    using nth_mem [of i b64_alphabet] by (simp add: b64_alphabet_props(1))
  then have "b64_alphabet ! i \<noteq> 61"
    using b64_alphabet_props(3) by metis
  then show ?thesis
    by (simp add: unat_b64_char [OF i])
qed

lemma b64_char_ascii: "i < 64 \<Longrightarrow> b64_char i < 0x80"
  using b64_alphabet_props(1,4) nth_mem [of i b64_alphabet]
  by (simp add: word_less_nat_alt unat_b64_char)

lemma regroup:
  fixes n :: nat
  shows "((n div 262144 * 64 + n div 4096 mod 64) * 64 + n div 64 mod 64) * 64 + n mod 64 = n"
proof -
  have a: "n div 4096 = n div 64 div 64" "n div 262144 = n div 64 div 64 div 64"
    by (simp_all add: div_mult2_eq)
  show ?thesis unfolding a
    by (metis div_mult_mod_eq[of _ 64])
qed

lemma unat_byte_less: "unat (a :: byte) < 256"
  using unsigned_less [of a] by simp

lemma sextet_bounds:
  fixes n :: nat
  shows "n div 4096 mod 64 < 64" "n div 64 mod 64 < 64" "n mod 64 < 64"
  by simp_all

lemma bytes_of_triple:
  fixes x y z :: nat
  assumes "x < 256" "y < 256" "z < 256"
  shows "(x * 65536 + y * 256 + z) div 65536 = x"
    and "(x * 65536 + y * 256 + z) div 256 mod 256 = y"
    and "(x * 65536 + y * 256 + z) mod 256 = z"
    and "x * 65536 + y * 256 + z < 16777216"
proof -
  have e: "x * 65536 + y * 256 + z = z + (y + x * 256) * 256" by simp
  have dm: "(z + k * 256) div 256 = k" "(z + k * 256) mod 256 = z" for k
    using assms(3) by simp_all
  show "(x * 65536 + y * 256 + z) div 65536 = x" using assms by simp
  show "(x * 65536 + y * 256 + z) div 256 mod 256 = y"
    unfolding e dm using assms(2) by simp
  show "(x * 65536 + y * 256 + z) mod 256 = z"
    unfolding e dm ..
  show "x * 65536 + y * 256 + z < 16777216" using assms by simp
qed

lemma b64decode_group:
  fixes a b c :: byte
  defines "n \<equiv> unat a * 65536 + unat b * 256 + unat c"
  shows "b64decode (map unat [b64_char (n div 262144), b64_char (n div 4096 mod 64),
            b64_char (n div 64 mod 64), b64_char (n mod 64)] @ r)
         = map_option ((@) [a, b, c]) (b64decode r)"
proof -
  have n: "n < 16777216" "n div 65536 = unat a" "n div 256 mod 256 = unat b" "n mod 256 = unat c"
    unfolding n_def using bytes_of_triple [OF unat_byte_less unat_byte_less unat_byte_less]
    by blast+
  have s0: "n div 262144 < 64" using n(1) by simp
  note idx = b64_index_char [OF s0] b64_index_char [OF sextet_bounds(1)]
    b64_index_char [OF sextet_bounds(2)] b64_index_char [OF sextet_bounds(3)]
  note pad = b64_char_not_pad [OF sextet_bounds(2)] b64_char_not_pad [OF sextet_bounds(3)]
  show ?thesis
    apply (simp only: list.map b64decode.simps append_Cons append_Nil idx pad prod.case
        option.case if_False simp_thms regroup Let_def n)
    apply simp
    done
qed

lemma b64decode_last1:
  fixes a :: byte
  defines "n \<equiv> unat a * 65536"
  shows "b64decode (map unat [b64_char (n div 262144), b64_char (n div 4096 mod 64), 0x3D, 0x3D])
         = Some [a]"
proof -
  have n: "n < 16777216" "n div 65536 = unat a"
    unfolding n_def using unat_byte_less [of a] by simp_all
  have z: "n div 64 mod 64 = 0" "n mod 64 = 0"
    unfolding n_def by simp_all
  have s0: "n div 262144 < 64" using n(1) by simp
  have "(n div 262144 * 64 + n div 4096 mod 64) * 4096 = n"
    using regroup [of n] unfolding z by simp
  then show ?thesis
    by (simp add: b64_index_char [OF s0] b64_index_char [OF sextet_bounds(1)] n
        del: of_nat_add of_nat_mult)
qed

lemma b64decode_last2:
  fixes a b :: byte
  defines "n \<equiv> unat a * 65536 + unat b * 256"
  shows "b64decode (map unat [b64_char (n div 262144), b64_char (n div 4096 mod 64),
           b64_char (n div 64 mod 64), 0x3D]) = Some [a, b]"
proof -
  have n: "n < 16777216" "n div 65536 = unat a" "n div 256 mod 256 = unat b"
    unfolding n_def
    using bytes_of_triple [OF unat_byte_less unat_byte_less, of 0 a b] by simp_all
  have z: "n mod 64 = 0"
    unfolding n_def by simp
  have s0: "n div 262144 < 64" using n(1) by simp
  have "((n div 262144 * 64 + n div 4096 mod 64) * 64 + n div 64 mod 64) * 64 = n"
    using regroup [of n] unfolding z by simp
  then show ?thesis
    by (simp add: b64_index_char [OF s0] b64_index_char [OF sextet_bounds(1)]
        b64_index_char [OF sextet_bounds(2)] b64_char_not_pad [OF sextet_bounds(2)] n
        del: of_nat_add of_nat_mult)
qed

lemma b64decode_b64encode: "b64decode (map unat (b64encode datos)) = Some datos"
proof (induction datos rule: b64encode.induct)
  case 1
  show ?case by simp
next
  case (2 a)
  show ?case using b64decode_last1 [of a] by (simp only: b64encode.simps Let_def)
next
  case (3 a b)
  show ?case using b64decode_last2 [of a b] by (simp only: b64encode.simps Let_def)
next
  case (4 a b c rest)
  show ?case
    using b64decode_group [of a b c "map unat (b64encode rest)"] "4.IH"
    by (simp only: b64encode.simps Let_def option.map append_Cons append_Nil map_append list.map)
qed

lemma b64encode_ascii: "\<forall>b\<in>set (b64encode datos). b < 0x80"
proof (induction datos rule: b64encode.induct)
  case 1
  show ?case by simp
next
  case (2 a)
  have "unat a * 65536 div 262144 < 64" using unat_byte_less [of a] by simp
  then show ?case by (simp add: Let_def b64_char_ascii)
next
  case (3 a b)
  have "(unat a * 65536 + unat b * 256) div 262144 < 64"
    using unat_byte_less [of a] unat_byte_less [of b] by simp
  then show ?case by (simp add: Let_def b64_char_ascii)
next
  case (4 a b c rest)
  have "(unat a * 65536 + unat b * 256 + unat c) div 262144 < 64"
    using unat_byte_less [of a] unat_byte_less [of b] unat_byte_less [of c] by simp
  with 4 show ?case by (simp add: Let_def b64_char_ascii)
qed

lemma utf8_decode_ascii:
  "\<forall>b\<in>set bs. b < 0x80 \<Longrightarrow> utf8_decode errs bs = Some (map unat bs)"
  by (induction bs) (simp_all add: utf8_first_def)

lemma imagen_a_base64_read:
  "contents fs ruta = Some datos \<Longrightarrow>
     imagen_a_base64 fs ruta = Inr (map unat (b64encode datos))"
  by (simp add: imagen_a_base64_def utf8_decode_ascii [OF b64encode_ascii])

lemma imagen_a_base64_missing:
  "contents fs ruta = None \<Longrightarrow> imagen_a_base64 fs ruta = Inl (OSError ruta)"
  by (simp add: imagen_a_base64_def)
section \<open>Properties of the text decoder and the image encoder\<close>

lemma utf8_decode_Replace_total: "\<exists>s. utf8_decode Replace bs = Some s"
proof (induction bs rule: length_induct)
  case (1 bs)
  show ?case
  proof (cases bs)
    case Nil
    then show ?thesis by simp
  next
    case (Cons b r)
    obtain cp k where f: "utf8_first b r = (cp, k)"
      by (cases "utf8_first b r")
    have "length (drop k r) < length bs"
      using Cons by simp
    then obtain s where "utf8_decode Replace (drop k r) = Some s"
      using 1 by blast
    then show ?thesis
      using Cons f by (cases cp) simp_all
  qed
qed

lemma read_text_missing:
  "contents fs ruta = None \<Longrightarrow> read_text fs ruta enc errs = Inl (OSError ruta)"
  by (simp add: read_text_def)

lemma read_text_Latin1:
  "contents fs ruta = Some datos \<Longrightarrow>
     read_text fs ruta Latin1 errs = Inr (translate_newlines (map unat datos))"
  by (simp add: read_text_def)

lemma read_text_Replace:
  "contents fs ruta = Some datos \<Longrightarrow> \<exists>s. read_text fs ruta UTF8 Replace = Inr s"
  using utf8_decode_Replace_total [of datos] by (auto simp: read_text_def)

lemma read_text_Strict_cases:
  assumes "contents fs ruta = Some datos"
  shows "read_text fs ruta enc Strict =
           (case decode enc Strict datos of
              None \<Rightarrow> Inl UnicodeDecodeError
            | Some s \<Rightarrow> Inr (translate_newlines s))"
  using assms by (simp add: read_text_def)

lemma leer_texto_loop_find:
  assumes "contents fs ruta = Some datos"
  shows "leer_texto_loop fs ruta encs =
           (case find (\<lambda>enc. decode enc Strict datos \<noteq> None) encs of
              Some enc \<Rightarrow> read_text fs ruta enc Strict
            | None \<Rightarrow> read_text fs ruta UTF8 Replace)"
  by (induction encs) (auto simp: read_text_Strict_cases [OF assms] split: option.splits)

lemma leer_texto_loop_missing:
  "contents fs ruta = None \<Longrightarrow> leer_texto_loop fs ruta encs = Inl (OSError ruta)"
  by (cases encs) (simp_all add: read_text_missing)

lemma leer_texto_value:
  assumes "contents fs ruta = Some datos"
  shows "leer_texto fs ruta =
           Inr (translate_newlines
                  (case utf8_decode Strict datos of Some s \<Rightarrow> s | None \<Rightarrow> map unat datos))"
  using assms by (simp add: leer_texto_def read_text_def split: option.splits)

lemma translate_newlines_id: "13 \<notin> set s \<Longrightarrow> translate_newlines s = s"
  by (induction s rule: translate_newlines.induct) simp_all

lemma find_encoding:
  "find (\<lambda>enc. decode enc Strict datos \<noteq> None) [UTF8, Latin1, CP1252] =
     (if decode UTF8 Strict datos \<noteq> None then Some UTF8 else Some Latin1)"
  by simp

lemma contents_c:
  "contents fs_textos (Path (ascii ''txt'') (ascii ''c.txt'')) = Some [0x61, 0x0D, 0x0A, 0x62, 0x0D]"
  by (simp add: fs_textos_def ascii_def)

lemma contents_d:
  "contents fs_textos (Path (ascii ''txt'') (ascii ''d.txt'')) = Some [0xE9, 0x0D, 0x0A, 0x62]"
  by (simp add: fs_textos_def ascii_def)

lemma contents_e:
  "contents fs_textos (Path (ascii ''txt'') (ascii ''e.txt''))
     = Some [0x63, 0xC3, 0xA9, 0xE2, 0x82, 0xAC]"
  by (simp add: fs_textos_def ascii_def)

text \<open>
  Claim C5, as stated, fails: the bytes of \<open>c.txt\<close> decode as UTF-8 to
  \<open>a\<close>, CR, LF, \<open>b\<close>, CR, and \<open>leer_texto\<close> returns \<open>a\<close>, LF, \<open>b\<close>, LF: the
  decoding is not returned unchanged.
\<close>

theorem leer_texto_unchanged_counterexample:
  "contents fs_textos (Path (ascii ''txt'') (ascii ''c.txt'')) = Some [0x61, 0x0D, 0x0A, 0x62, 0x0D]
   \<and> decode UTF8 Strict [0x61, 0x0D, 0x0A, 0x62, 0x0D] = Some [97, 13, 10, 98, 13]
   \<and> leer_texto fs_textos (Path (ascii ''txt'') (ascii ''c.txt'')) = Inr [97, 10, 98, 10]
   \<and> leer_texto fs_textos (Path (ascii ''txt'') (ascii ''c.txt'')) \<noteq> Inr [97, 13, 10, 98, 13]"
proof -
  have d: "utf8_decode Strict [0x61, 0x0D, 0x0A, 0x62, 0x0D] = Some [97, 13, 10, 98, 13]"
    by (simp add: utf8_first_def)
  have "leer_texto fs_textos (Path (ascii ''txt'') (ascii ''c.txt'')) = Inr [97, 10, 98, 10]"
    unfolding leer_texto_value [OF contents_c] d by simp
  then show ?thesis
    using contents_c d by simp
qed

text \<open>
  Claim C5, amended. On a file that can be read, whatever its bytes, \<open>leer_texto\<close>
  raises nothing: it returns the decoding of the bytes by the first of UTF-8, Latin-1 and
  Windows-1252, in this order, that decodes them without error, with the line endings
  CR LF and CR given as LF and nothing else changed, so that a decoding without CR is
  returned as it is; were there no such encoding, it would return in the same way the
  decoding as UTF-8 with the handler \<open>replace\<close>, which never fails.
\<close>

theorem leer_texto_first_decoding:
  assumes "contents fs ruta = Some datos"
  shows "\<exists>s. leer_texto fs ruta = Inr (translate_newlines s)
       \<and> ((\<exists>enc. find (\<lambda>enc. decode enc Strict datos \<noteq> None) [UTF8, Latin1, CP1252] = Some enc
                 \<and> decode enc Strict datos = Some s)
          \<or> (find (\<lambda>enc. decode enc Strict datos \<noteq> None) [UTF8, Latin1, CP1252] = None
                 \<and> decode UTF8 Replace datos = Some s))
       \<and> (13 \<notin> set s \<longrightarrow> leer_texto fs ruta = Inr s)
       \<and> (\<exists>t. decode UTF8 Replace datos = Some t)"
proof -
  have rep: "\<exists>t. decode UTF8 Replace datos = Some t"
    using utf8_decode_Replace_total [of datos] by simp
  show ?thesis
  proof (cases "decode UTF8 Strict datos")
    case None
    let ?s = "map unat datos"
    have "leer_texto fs ruta = Inr (translate_newlines ?s)"
      using leer_texto_value [OF assms] None by simp
    moreover have "find (\<lambda>enc. decode enc Strict datos \<noteq> None) [UTF8, Latin1, CP1252] = Some Latin1"
      unfolding find_encoding using None by simp
    moreover have "decode Latin1 Strict datos = Some ?s"
      by simp
    ultimately show ?thesis
      using rep translate_newlines_id [of ?s] by metis
  next
    case (Some s)
    have "leer_texto fs ruta = Inr (translate_newlines s)"
      using leer_texto_value [OF assms] Some by simp
    moreover have "find (\<lambda>enc. decode enc Strict datos \<noteq> None) [UTF8, Latin1, CP1252] = Some UTF8"
      unfolding find_encoding using Some by simp
    ultimately show ?thesis
      using rep Some translate_newlines_id [of s] by metis
  qed
qed

theorem leer_texto_first_decoding_witness:
  "contents fs_textos (Path (ascii ''txt'') (ascii ''e.txt''))
     = Some [0x63, 0xC3, 0xA9, 0xE2, 0x82, 0xAC]
   \<and> decode UTF8 Strict [0x63, 0xC3, 0xA9, 0xE2, 0x82, 0xAC] = Some [99, 233, 8364]
   \<and> 13 \<notin> set [99, 233, 8364 :: nat]
   \<and> leer_texto fs_textos (Path (ascii ''txt'') (ascii ''e.txt'')) = Inr [99, 233, 8364]"
proof -
  let ?p = "Path (ascii ''txt'') (ascii ''e.txt'')"
  let ?datos = "[0x63, 0xC3, 0xA9, 0xE2, 0x82, 0xAC] :: byte list"
  have d: "decode UTF8 Strict ?datos = Some [99, 233, 8364]"
    by (simp add: utf8_first_def continuation_def second_of_3_def)
  have f: "find (\<lambda>enc. decode enc Strict ?datos \<noteq> None) [UTF8, Latin1, CP1252] = Some UTF8"
    unfolding find_encoding using d by (simp del: decode.simps)
  obtain s where
    e: "(\<exists>enc. find (\<lambda>enc. decode enc Strict ?datos \<noteq> None) [UTF8, Latin1, CP1252] = Some enc
                 \<and> decode enc Strict ?datos = Some s)
          \<or> (find (\<lambda>enc. decode enc Strict ?datos \<noteq> None) [UTF8, Latin1, CP1252] = None
                 \<and> decode UTF8 Replace ?datos = Some s)"
    and u: "13 \<notin> set s \<longrightarrow> leer_texto fs_textos ?p = Inr s"
    using leer_texto_first_decoding [OF contents_e] by blast
  from e have "decode UTF8 Strict ?datos = Some s"
    unfolding f by simp
  then have s: "s = [99, 233, 8364]"
    unfolding d by simp
  have "leer_texto fs_textos ?p = Inr [99, 233, 8364]"
    using u unfolding s by simp
  with contents_e d show ?thesis by simp
qed

text \<open>
  Claim C10, as stated, fails: the bytes of \<open>d.txt\<close> are not UTF-8, their Latin-1
  decoding is U+00E9, CR, LF, \<open>b\<close>, and \<open>leer_texto\<close> returns U+00E9, LF, \<open>b\<close>.
\<close>

theorem leer_texto_latin1_counterexample:
  "contents fs_textos (Path (ascii ''txt'') (ascii ''d.txt'')) = Some [0xE9, 0x0D, 0x0A, 0x62]
   \<and> decode UTF8 Strict [0xE9, 0x0D, 0x0A, 0x62] = None
   \<and> decode Latin1 Strict [0xE9, 0x0D, 0x0A, 0x62] = Some [233, 13, 10, 98]
   \<and> leer_texto fs_textos (Path (ascii ''txt'') (ascii ''d.txt'')) = Inr [233, 10, 98]
   \<and> leer_texto fs_textos (Path (ascii ''txt'') (ascii ''d.txt'')) \<noteq> Inr [233, 13, 10, 98]"
proof -
  have d: "utf8_decode Strict [0xE9, 0x0D, 0x0A, 0x62] = None"
    by (simp add: utf8_first_def second_of_3_def continuation_def)
  have "leer_texto fs_textos (Path (ascii ''txt'') (ascii ''d.txt'')) = Inr [233, 10, 98]"
    unfolding leer_texto_value [OF contents_d] d by simp
  then show ?thesis
    using contents_d d by simp
qed

text \<open>
  Claim C10, amended. Latin-1 decodes every byte sequence, so on a file that can be
  read the result of \<open>leer_texto\<close> is the UTF-8 decoding when the bytes are well-formed
  UTF-8 and the Latin-1 decoding otherwise, in both cases with the line endings CR LF and
  CR given as LF; what follows Latin-1 in the list of encodings, and the read after the
  loop, are never reached: the loop gives the same result whatever encodings \<open>encs\<close>
  come after the first two.
\<close>

theorem leer_texto_utf8_or_latin1:
  assumes "contents fs ruta = Some datos"
  shows "leer_texto fs ruta =
           Inr (translate_newlines
                  (case decode UTF8 Strict datos of
                     Some s \<Rightarrow> s
                   | None \<Rightarrow> map unat datos))
       \<and> decode Latin1 Strict datos = Some (map unat datos)
       \<and> leer_texto_loop fs ruta (UTF8 # Latin1 # encs) = leer_texto fs ruta"
proof -
  have "leer_texto_loop fs ruta (UTF8 # Latin1 # encs) = leer_texto fs ruta"
    using assms by (simp add: leer_texto_def read_text_def split: option.splits)
  then show ?thesis
    using leer_texto_value [OF assms] by simp
qed

theorem leer_texto_utf8_or_latin1_witness:
  "contents fs_textos (Path (ascii ''txt'') (ascii ''b.txt'')) = Some [0x63, 0xE9, 0x81, 0xFF]
   \<and> decode UTF8 Strict [0x63, 0xE9, 0x81, 0xFF] = None
   \<and> decode CP1252 Strict [0x63, 0xE9, 0x81, 0xFF] = None
   \<and> leer_texto fs_textos (Path (ascii ''txt'') (ascii ''b.txt'')) = Inr [99, 233, 129, 255]"
proof -
  have c: "contents fs_textos (Path (ascii ''txt'') (ascii ''b.txt''))
     = Some [0x63, 0xE9, 0x81, 0xFF]"
    by (simp add: fs_textos_def ascii_def)
  have d: "decode UTF8 Strict [0x63, 0xE9, 0x81, 0xFF] = None"
    by (simp add: utf8_first_def continuation_def second_of_3_def)
  have e: "decode CP1252 Strict [0x63, 0xE9, 0x81, 0xFF] = None"
    by (simp add: cp1252_char_def cp1252_high_def)
  show ?thesis
    using leer_texto_utf8_or_latin1 [OF c] c d e by simp
qed

text \<open>
  Claim C4. For a file that can be read, whatever its bytes (none at all included),
  \<open>imagen_a_base64\<close> returns a text whose base-64 decoding is exactly these bytes.
\<close>

theorem imagen_a_base64_lossless:
  assumes "contents fs ruta_imagen = Some datos"
  shows "\<exists>s. imagen_a_base64 fs ruta_imagen = Inr s \<and> b64decode s = Some datos"
  using imagen_a_base64_read [OF assms] b64decode_b64encode [of datos] by simp

theorem imagen_a_base64_lossless_witness:
  "contents fs_imagenes (Path (ascii ''img'') (ascii ''a.jpg'')) = Some [0xFF, 0xD8, 0xFF, 0xE0, 0x00]
   \<and> imagen_a_base64 fs_imagenes (Path (ascii ''img'') (ascii ''a.jpg'')) = Inr (ascii ''/9j/4AA='')
   \<and> b64decode (ascii ''/9j/4AA='') = Some [0xFF, 0xD8, 0xFF, 0xE0, 0x00]"
proof -
  let ?p = "Path (ascii ''img'') (ascii ''a.jpg'')"
  let ?datos = "[0xFF, 0xD8, 0xFF, 0xE0, 0x00] :: byte list"
  have c: "contents fs_imagenes ?p = Some ?datos"
    by (simp add: fs_imagenes_def)
  have e: "map unat (b64encode ?datos) = ascii ''/9j/4AA=''"
    by (simp add: b64_char_def b64_alphabet_def ascii_def)
  have i: "imagen_a_base64 fs_imagenes ?p = Inr (ascii ''/9j/4AA='')"
    using imagen_a_base64_read [OF c] e by (simp only:)
  obtain s where s: "imagen_a_base64 fs_imagenes ?p = Inr s" "b64decode s = Some ?datos"
    using imagen_a_base64_lossless [OF c] by blast
  have "s = ascii ''/9j/4AA=''"
    using s(1) i by (simp only: sum.inject)
  then show ?thesis
    using c i s(2) by (simp only: simp_thms)
qed
section \<open>Properties of the file pairer\<close>

text \<open>
  On the names the patterns of this program match, a star followed by a dot and an
  extension without a dot, the stem is the name without the dot and the extension.
\<close>

lemma rfind_last_dot:
  assumes "46 \<notin> set ext"
  shows "rfind 46 (s @ 46 # ext) = Some (length s)"
proof -
  have "takeWhile (\<lambda>x. x \<noteq> 46) (rev ext @ 46 # rev s) = rev ext"
    using assms by (auto simp: takeWhile_tail)
  then show ?thesis
    by (simp add: rfind_def)
qed

lemma path_stem_of_match:
  assumes "fnmatch name (42 # 46 # ext)" and "take 1 name \<noteq> [46]"
    and "46 \<notin> set ext" and "ext \<noteq> []"
  shows "path_stem (Path carpeta name) = take (length name - length ext - 1) name"
proof -
  define s where "s = take (length name - length ext - 1) name"
  have l: "Suc (length ext) \<le> length name"
    and d: "drop (length name - Suc (length ext)) name = 46 # ext"
    using assms(1) by (simp_all add: fnmatch_def)
  have n: "name = s @ 46 # ext"
    using append_take_drop_id [of "length name - Suc (length ext)" name] d
    by (simp add: s_def)
  have "s \<noteq> []"
    using n assms(2) by (cases s) auto
  then show ?thesis
    using assms(4) rfind_last_dot [OF assms(3), of s]
    unfolding s_def [symmetric] by (simp add: path_stem_def n)
qed


lemma recoger_snoc:
  "recoger lower (rutas @ [ruta]) =
     AList.update (lower (path_stem ruta)) ruta (recoger lower rutas)"
  by (simp add: recoger_def)

text \<open>The dictionary holds, for every key, the file with that key that was visited last.\<close>

lemma map_of_recoger:
  "map_of (recoger lower rutas) k =
     (if k \<in> claves lower rutas
      then Some (last (filter (\<lambda>ruta. lower (path_stem ruta) = k) rutas))
      else None)"
proof (induction rutas rule: rev_induct)
  case Nil
  show ?case by (simp add: recoger_def claves_def)
next
  case (snoc ruta rutas)
  show ?case
    using snoc.IH
    by (auto simp: recoger_snoc update_conv' claves_def)
qed

lemma keys_recoger: "set (map fst (recoger lower rutas)) = claves lower rutas"
proof -
  have "dom (map_of (recoger lower rutas)) = claves lower rutas"
    by (auto simp: map_of_recoger dom_def)
  then show ?thesis
    by (simp add: dom_map_of_conv_image_fst)
qed

lemma last_filter_in:
  assumes "k \<in> claves lower rutas"
  shows "last (filter (\<lambda>ruta. lower (path_stem ruta) = k) rutas) \<in> set rutas"
    and "lower (path_stem (last (filter (\<lambda>ruta. lower (path_stem ruta) = k) rutas))) = k"
proof -
  let ?rs = "filter (\<lambda>ruta. lower (path_stem ruta) = k) rutas"
  have "?rs \<noteq> []"
    using assms by (auto simp: claves_def filter_empty_conv)
  then have "last ?rs \<in> set ?rs"
    by (rule last_in_set)
  then show "last ?rs \<in> set rutas" and "lower (path_stem (last ?rs)) = k"
    by simp_all
qed

text \<open>
  The loop over the common names raises nothing when every name is a key of both
  dictionaries, and it builds one record for each name, in the order of the names.
\<close>

lemma armar_pares_ok:
  assumes "set ks \<subseteq> set (map fst imagenes) \<inter> set (map fst textos)"
  shows "\<exists>pares. armar_pares imagenes textos ks = Inr pares \<and>
           list_all2 (\<lambda>k p. map_of imagenes k = Some (ruta_img p) \<and>
                            map_of textos k = Some (ruta_txt p) \<and>
                            nombre p = path_stem (ruta_img p)) ks pares"
  using assms
proof (induction ks)
  case Nil
  show ?case by simp
next
  case (Cons k ks)
  have "map_of imagenes k \<noteq> None" "map_of textos k \<noteq> None"
    using Cons.prems by (simp_all add: map_of_eq_None_iff)
  then obtain img tx where
    l: "map_of imagenes k = Some img" "map_of textos k = Some tx"
    by auto
  from Cons obtain pares where
    "armar_pares imagenes textos ks = Inr pares"
    "list_all2 (\<lambda>k p. map_of imagenes k = Some (ruta_img p) \<and>
                      map_of textos k = Some (ruta_txt p) \<and>
                      nombre p = path_stem (ruta_img p)) ks pares"
    by auto
  then show ?case
    using l by simp
qed

text \<open>
  What \<open>emparejar_archivos\<close> returns: it raises nothing, and its records stand, one for
  one and in the same order, against the sorted list of the keys that the images and the
  texts have in common. The record of a key holds the image and the text visited last
  among the files with that key, and the stem of that image as its name.
\<close>

lemma emparejar_archivos_records:
  "\<exists>pares. emparejar_archivos lower fs carpeta_img carpeta_txt = Inr pares \<and>
     list_all2
       (\<lambda>k p. nombre p = path_stem (ruta_img p) \<and>
              lower (nombre p) = k \<and>
              lower (path_stem (ruta_txt p)) = k \<and>
              ruta_img p \<in> set (rutas_img fs carpeta_img) \<and>
              ruta_txt p \<in> set (rutas_txt fs carpeta_txt) \<and>
              ruta_img p =
                last (filter (\<lambda>ruta. lower (path_stem ruta) = k) (rutas_img fs carpeta_img)) \<and>
              ruta_txt p =
                last (filter (\<lambda>ruta. lower (path_stem ruta) = k) (rutas_txt fs carpeta_txt)))
       (sorted_list_of_set
          (claves lower (rutas_img fs carpeta_img) \<inter> claves lower (rutas_txt fs carpeta_txt)))
       pares"
proof -
  let ?ri = "rutas_img fs carpeta_img" and ?rt = "rutas_txt fs carpeta_txt"
  let ?imagenes = "recoger lower ?ri" and ?textos = "recoger lower ?rt"
  let ?common = "claves lower ?ri \<inter> claves lower ?rt"
  let ?ks = "sorted_list_of_set ?common"
  have fin: "finite ?common"
    by (simp add: claves_def)
  have ks: "set ?ks = ?common"
    using fin by simp
  have e: "emparejar_archivos lower fs carpeta_img carpeta_txt = armar_pares ?imagenes ?textos ?ks"
    by (simp add: emparejar_archivos_def Let_def keys_recoger del: set_map)
  have "set ?ks \<subseteq> set (map fst ?imagenes) \<inter> set (map fst ?textos)"
    unfolding ks keys_recoger by simp
  from armar_pares_ok [OF this] obtain pares where
    p: "armar_pares ?imagenes ?textos ?ks = Inr pares"
    and r: "list_all2 (\<lambda>k p. map_of ?imagenes k = Some (ruta_img p) \<and>
                             map_of ?textos k = Some (ruta_txt p) \<and>
                             nombre p = path_stem (ruta_img p)) ?ks pares"
    by blast
  have "list_all2
       (\<lambda>k p. nombre p = path_stem (ruta_img p) \<and>
              lower (nombre p) = k \<and>
              lower (path_stem (ruta_txt p)) = k \<and>
              ruta_img p \<in> set ?ri \<and>
              ruta_txt p \<in> set ?rt \<and>
              ruta_img p = last (filter (\<lambda>ruta. lower (path_stem ruta) = k) ?ri) \<and>
              ruta_txt p = last (filter (\<lambda>ruta. lower (path_stem ruta) = k) ?rt))
       ?ks pares"
    using r
  proof (rule list_all2_mono)
    fix k p
    assume a: "map_of ?imagenes k = Some (ruta_img p) \<and>
               map_of ?textos k = Some (ruta_txt p) \<and>
               nombre p = path_stem (ruta_img p)"
    then have ki: "k \<in> claves lower ?ri" and kt: "k \<in> claves lower ?rt"
      by (auto simp: map_of_recoger split: if_splits)
    have i: "ruta_img p = last (filter (\<lambda>ruta. lower (path_stem ruta) = k) ?ri)"
      using a ki by (simp add: map_of_recoger)
    have t: "ruta_txt p = last (filter (\<lambda>ruta. lower (path_stem ruta) = k) ?rt)"
      using a kt by (simp add: map_of_recoger)
    show "nombre p = path_stem (ruta_img p) \<and>
          lower (nombre p) = k \<and>
          lower (path_stem (ruta_txt p)) = k \<and>
          ruta_img p \<in> set ?ri \<and>
          ruta_txt p \<in> set ?rt \<and>
          ruta_img p = last (filter (\<lambda>ruta. lower (path_stem ruta) = k) ?ri) \<and>
          ruta_txt p = last (filter (\<lambda>ruta. lower (path_stem ruta) = k) ?rt)"
      using a i t last_filter_in [OF ki] last_filter_in [OF kt] by simp
  qed
  with e p show ?thesis
    by (simp only:) blast
qed

lemma list_all2_map_eq:
  "list_all2 (\<lambda>k p. f p = k \<and> Q k p) ks ps \<Longrightarrow> map f ps = ks"
  by (induction ks ps rule: list_all2_induct) simp_all

lemma emparejar_archivos_keys:
  "\<exists>pares. emparejar_archivos lower fs carpeta_img carpeta_txt = Inr pares \<and>
     map (\<lambda>p. lower (nombre p)) pares =
       sorted_list_of_set
         (claves lower (rutas_img fs carpeta_img) \<inter> claves lower (rutas_txt fs carpeta_txt))"
proof -
  obtain pares where
    e: "emparejar_archivos lower fs carpeta_img carpeta_txt = Inr pares"
    and r: "list_all2
       (\<lambda>k p. nombre p = path_stem (ruta_img p) \<and>
              lower (nombre p) = k \<and>
              lower (path_stem (ruta_txt p)) = k \<and>
              ruta_img p \<in> set (rutas_img fs carpeta_img) \<and>
              ruta_txt p \<in> set (rutas_txt fs carpeta_txt) \<and>
              ruta_img p =
                last (filter (\<lambda>ruta. lower (path_stem ruta) = k) (rutas_img fs carpeta_img)) \<and>
              ruta_txt p =
                last (filter (\<lambda>ruta. lower (path_stem ruta) = k) (rutas_txt fs carpeta_txt)))
       (sorted_list_of_set
          (claves lower (rutas_img fs carpeta_img) \<inter> claves lower (rutas_txt fs carpeta_txt)))
       pares"
    using emparejar_archivos_records [of lower fs carpeta_img carpeta_txt] by blast
  have "list_all2 (\<lambda>k p. lower (nombre p) = k \<and> True)
       (sorted_list_of_set
          (claves lower (rutas_img fs carpeta_img) \<inter> claves lower (rutas_txt fs carpeta_txt)))
       pares"
    using r by (rule list_all2_mono) simp
  then have "map (\<lambda>p. lower (nombre p)) pares =
       sorted_list_of_set
         (claves lower (rutas_img fs carpeta_img) \<inter> claves lower (rutas_txt fs carpeta_txt))"
    by (rule list_all2_map_eq)
  with e show ?thesis by blast
qed

lemma emparejar_archivos_members:
  assumes "emparejar_archivos lower fs carpeta_img carpeta_txt = Inr pares" "p \<in> set pares"
  shows "nombre p = path_stem (ruta_img p)"
    and "lower (path_stem (ruta_txt p)) = lower (nombre p)"
    and "ruta_img p \<in> set (rutas_img fs carpeta_img)"
    and "ruta_txt p \<in> set (rutas_txt fs carpeta_txt)"
    and "ruta_img p =
           last (filter (\<lambda>ruta. lower (path_stem ruta) = lower (nombre p))
                   (rutas_img fs carpeta_img))"
    and "ruta_txt p =
           last (filter (\<lambda>ruta. lower (path_stem ruta) = lower (nombre p))
                   (rutas_txt fs carpeta_txt))"
proof -
  let ?R = "\<lambda>k p. nombre p = path_stem (ruta_img p) \<and>
              lower (nombre p) = k \<and>
              lower (path_stem (ruta_txt p)) = k \<and>
              ruta_img p \<in> set (rutas_img fs carpeta_img) \<and>
              ruta_txt p \<in> set (rutas_txt fs carpeta_txt) \<and>
              ruta_img p =
                last (filter (\<lambda>ruta. lower (path_stem ruta) = k) (rutas_img fs carpeta_img)) \<and>
              ruta_txt p =
                last (filter (\<lambda>ruta. lower (path_stem ruta) = k) (rutas_txt fs carpeta_txt))"
  obtain ks where ks: "list_all2 ?R ks pares"
    using emparejar_archivos_records [of lower fs carpeta_img carpeta_txt] assms(1) by auto
  obtain i where i: "i < length pares" "p = pares ! i"
    using assms(2) by (auto simp: in_set_conv_nth)
  have "?R (ks ! i) (pares ! i)"
    using ks i(1) by (rule list_all2_nthD2)
  then have "?R (ks ! i) p"
    unfolding i(2) .
  then obtain k where k: "?R k p" ..
  then have kk: "lower (nombre p) = k" by blast
  show "nombre p = path_stem (ruta_img p)"
    and "lower (path_stem (ruta_txt p)) = lower (nombre p)"
    and "ruta_img p \<in> set (rutas_img fs carpeta_img)"
    and "ruta_txt p \<in> set (rutas_txt fs carpeta_txt)"
    and "ruta_img p =
           last (filter (\<lambda>ruta. lower (path_stem ruta) = lower (nombre p))
                   (rutas_img fs carpeta_img))"
    and "ruta_txt p =
           last (filter (\<lambda>ruta. lower (path_stem ruta) = lower (nombre p))
                   (rutas_txt fs carpeta_txt))"
    using k unfolding kk by blast+
qed








lemma emparejar_mixed_case_extension:
  "emparejar_archivos ascii_lower fs_mixto (ascii ''img'') (ascii ''txt'') = Inr []"
  "claves ascii_lower (imagenes_presentes fs_mixto (ascii ''img'')) \<inter>
   claves ascii_lower (textos_presentes fs_mixto (ascii ''txt'')) = {ascii ''a''}"
  by code_simp+

lemma rutas_img_patron:
  "rutas_img fs_patron (ascii ''img[1]'') = [Path (ascii ''img1'') (ascii ''b.jpg'')]"
  by code_simp


text \<open>The scenario and the directory with three images of one key, evaluated.\<close>

lemma emparejar_paginas:
  "emparejar_archivos ascii_lower fs_paginas (ascii ''img'') (ascii ''txt'') =
     Inr [\<lparr>nombre = ascii ''pagina_001'',
            ruta_img = Path (ascii ''img'') (ascii ''pagina_001.jpg''),
            ruta_txt = Path (ascii ''txt'') (ascii ''pagina_001.txt'')\<rparr>,
          \<lparr>nombre = ascii ''PAGINA_002'',
            ruta_img = Path (ascii ''img'') (ascii ''PAGINA_002.JPG''),
            ruta_txt = Path (ascii ''txt'') (ascii ''pagina_002.txt'')\<rparr>]"
  by code_simp


lemma emparejar_duplicados:
  "emparejar_archivos ascii_lower fs_duplicados (ascii ''img'') (ascii ''txt'') =
     Inr [\<lparr>nombre = ascii ''a'',
            ruta_img = Path (ascii ''img'') (ascii ''a.JPG''),
            ruta_txt = Path (ascii ''txt'') (ascii ''a.txt'')\<rparr>]"
  by code_simp

lemma rutas_img_duplicados:
  "rutas_img fs_duplicados (ascii ''img'') =
     [Path (ascii ''img'') (ascii ''A.jpg''), Path (ascii ''img'') (ascii ''a.jpg''),
      Path (ascii ''img'') (ascii ''a.JPG'')]"
  by code_simp




text \<open>
  Claim C6. The name of every record is the stem of its image file as the directory has
  it, not lower-cased; that image is one of the images found, the text is one of the
  texts found, and the two have the same match key. In the scenario the records are
  \<open>pagina_001\<close> and then \<open>PAGINA_002\<close>, and \<open>extra\<close> has none.
\<close>

theorem nombre_is_image_stem:
  assumes "emparejar_archivos lower fs carpeta_img carpeta_txt = Inr pares" and "p \<in> set pares"
  shows "nombre p = path_stem (ruta_img p)
     \<and> ruta_img p \<in> set (rutas_img fs carpeta_img)
     \<and> ruta_txt p \<in> set (rutas_txt fs carpeta_txt)
     \<and> lower (path_stem (ruta_txt p)) = lower (path_stem (ruta_img p))
     \<and> emparejar_archivos ascii_lower fs_paginas (ascii ''img'') (ascii ''txt'') =
         Inr [\<lparr>nombre = ascii ''pagina_001'',
                ruta_img = Path (ascii ''img'') (ascii ''pagina_001.jpg''),
                ruta_txt = Path (ascii ''txt'') (ascii ''pagina_001.txt'')\<rparr>,
              \<lparr>nombre = ascii ''PAGINA_002'',
                ruta_img = Path (ascii ''img'') (ascii ''PAGINA_002.JPG''),
                ruta_txt = Path (ascii ''txt'') (ascii ''pagina_002.txt'')\<rparr>]"
  using emparejar_archivos_members(1-4) [OF assms] emparejar_paginas by simp

theorem nombre_is_image_stem_witness:
  "nombre \<lparr>nombre = ascii ''PAGINA_002'',
           ruta_img = Path (ascii ''img'') (ascii ''PAGINA_002.JPG''),
           ruta_txt = Path (ascii ''txt'') (ascii ''pagina_002.txt'')\<rparr>
     = path_stem (Path (ascii ''img'') (ascii ''PAGINA_002.JPG''))
   \<and> path_stem (Path (ascii ''img'') (ascii ''PAGINA_002.JPG'')) = ascii ''PAGINA_002''
   \<and> ascii_lower (path_stem (Path (ascii ''txt'') (ascii ''pagina_002.txt'')))
     = ascii_lower (path_stem (Path (ascii ''img'') (ascii ''PAGINA_002.JPG'')))"
proof -
  let ?p = "\<lparr>nombre = ascii ''PAGINA_002'',
             ruta_img = Path (ascii ''img'') (ascii ''PAGINA_002.JPG''),
             ruta_txt = Path (ascii ''txt'') (ascii ''pagina_002.txt'')\<rparr>"
  have "?p \<in> set [\<lparr>nombre = ascii ''pagina_001'',
                ruta_img = Path (ascii ''img'') (ascii ''pagina_001.jpg''),
                ruta_txt = Path (ascii ''txt'') (ascii ''pagina_001.txt'')\<rparr>, ?p]"
    by simp
  from nombre_is_image_stem [OF emparejar_paginas this]
  show ?thesis by simp
qed

text \<open>
  Claim C7. When several image files have the same match key, the dictionary of images
  keeps, for that key, the file visited last: visiting a file puts it under its key
  whatever was there. \<open>emparejar_archivos\<close> raises nothing, and for every key that
  the images found and the texts found have in common it returns one record, whose image
  is the last of the images found that have the key.
\<close>

theorem duplicate_key_last_wins:
  assumes "k \<in> claves lower (rutas_img fs carpeta_img)"
    and "k \<in> claves lower (rutas_txt fs carpeta_txt)"
  shows "map_of (recoger lower (rutas @ [ruta])) (lower (path_stem ruta)) = Some ruta
   \<and> map_of (recoger lower (rutas_img fs carpeta_img)) k =
       Some (last (filter (\<lambda>ruta. lower (path_stem ruta) = k) (rutas_img fs carpeta_img)))
   \<and> (\<exists>pares p. emparejar_archivos lower fs carpeta_img carpeta_txt = Inr pares
        \<and> p \<in> set pares
        \<and> lower (nombre p) = k
        \<and> ruta_img p =
            last (filter (\<lambda>ruta. lower (path_stem ruta) = k) (rutas_img fs carpeta_img))
        \<and> (\<forall>q\<in>set pares. lower (nombre q) = k \<longrightarrow> q = p))"
proof -
  let ?common = "claves lower (rutas_img fs carpeta_img) \<inter> claves lower (rutas_txt fs carpeta_txt)"
  have o: "map_of (recoger lower (rutas @ [ruta])) (lower (path_stem ruta)) = Some ruta"
    by (simp add: recoger_snoc update_conv')
  have m: "map_of (recoger lower (rutas_img fs carpeta_img)) k =
       Some (last (filter (\<lambda>ruta. lower (path_stem ruta) = k) (rutas_img fs carpeta_img)))"
    using assms(1) by (simp add: map_of_recoger)
  obtain pares where
    e: "emparejar_archivos lower fs carpeta_img carpeta_txt = Inr pares"
    and ks: "map (\<lambda>p. lower (nombre p)) pares = sorted_list_of_set ?common"
    using emparejar_archivos_keys [of lower fs carpeta_img carpeta_txt] by blast
  have fin: "finite ?common"
    by (simp add: claves_def)
  have "k \<in> set (map (\<lambda>p. lower (nombre p)) pares)"
    unfolding ks using fin assms by simp
  then obtain p where p: "p \<in> set pares" "lower (nombre p) = k"
    by auto
  have i: "ruta_img p =
      last (filter (\<lambda>ruta. lower (path_stem ruta) = k) (rutas_img fs carpeta_img))"
    using emparejar_archivos_members(5) [OF e p(1)] unfolding p(2) .
  have "distinct (map (\<lambda>p. lower (nombre p)) pares)"
    unfolding ks by simp
  then have "inj_on (\<lambda>p. lower (nombre p)) (set pares)"
    by (simp add: distinct_map)
  then have u: "\<forall>q\<in>set pares. lower (nombre q) = k \<longrightarrow> q = p"
    using p by (auto dest: inj_onD)
  show ?thesis
    using o m e p i u by blast
qed

theorem duplicate_key_last_wins_witness:
  "rutas_img fs_duplicados (ascii ''img'') =
     [Path (ascii ''img'') (ascii ''A.jpg''), Path (ascii ''img'') (ascii ''a.jpg''),
      Path (ascii ''img'') (ascii ''a.JPG'')]
   \<and> ascii ''a'' \<in> claves ascii_lower (rutas_img fs_duplicados (ascii ''img''))
   \<and> ascii ''a'' \<in> claves ascii_lower (rutas_txt fs_duplicados (ascii ''txt''))
   \<and> emparejar_archivos ascii_lower fs_duplicados (ascii ''img'') (ascii ''txt'') =
       Inr [\<lparr>nombre = ascii ''a'',
              ruta_img = Path (ascii ''img'') (ascii ''a.JPG''),
              ruta_txt = Path (ascii ''txt'') (ascii ''a.txt'')\<rparr>]
   \<and> last (filter (\<lambda>ruta. ascii_lower (path_stem ruta) = ascii ''a'')
             (rutas_img fs_duplicados (ascii ''img''))) = Path (ascii ''img'') (ascii ''a.JPG'')"
proof -
  let ?r = "\<lparr>nombre = ascii ''a'',
              ruta_img = Path (ascii ''img'') (ascii ''a.JPG''),
              ruta_txt = Path (ascii ''txt'') (ascii ''a.txt'')\<rparr>"
  have ki: "ascii ''a'' \<in> claves ascii_lower (rutas_img fs_duplicados (ascii ''img''))"
    and kt: "ascii ''a'' \<in> claves ascii_lower (rutas_txt fs_duplicados (ascii ''txt''))"
    by code_simp+
  obtain pares p where
    e: "emparejar_archivos ascii_lower fs_duplicados (ascii ''img'') (ascii ''txt'') = Inr pares"
    and p: "p \<in> set pares"
    and i: "ruta_img p =
        last (filter (\<lambda>ruta. ascii_lower (path_stem ruta) = ascii ''a'')
                (rutas_img fs_duplicados (ascii ''img'')))"
    using duplicate_key_last_wins [OF ki kt] by blast
  have "pares = [?r]"
    using e unfolding emparejar_duplicados by simp
  then have "p = ?r"
    using p by simp
  then have "last (filter (\<lambda>ruta. ascii_lower (path_stem ruta) = ascii ''a'')
             (rutas_img fs_duplicados (ascii ''img''))) = Path (ascii ''img'') (ascii ''a.JPG'')"
    using i by simp
  then show ?thesis
    using rutas_img_duplicados ki kt emparejar_duplicados by blast
qed

section \<open>Properties of the artifact assembler\<close>

lemma leer_texto_missing:
  "contents fs ruta = None \<Longrightarrow> leer_texto fs ruta = Inl (OSError ruta)"
  by (simp add: leer_texto_def read_text_missing)

lemma leer_texto_read:
  "contents fs ruta = Some datos \<Longrightarrow> \<exists>s. leer_texto fs ruta = Inr s"
  by (simp add: leer_texto_value)

text \<open>
  If one of the files of the pairs cannot be read, the loop ends with the \<open>OSError\<close> of
  such a file.
\<close>

lemma procesar_pares_unreadable:
  assumes "p \<in> set pares"
    and "contents fs (ruta_img p) = None \<or> contents fs (ruta_txt p) = None"
  shows "\<exists>ruta. procesar_pares fs pares = Inl (OSError ruta) \<and> contents fs ruta = None
           \<and> ruta \<in> ruta_img ` set pares \<union> ruta_txt ` set pares"
  using assms
proof (induction pares)
  case Nil
  then show ?case by simp
next
  case (Cons q resto)
  show ?case
  proof (cases "contents fs (ruta_img q)")
    case None
    then show ?thesis
      by (auto simp: imagen_a_base64_missing)
  next
    case (Some datos)
    note img = imagen_a_base64_read [OF Some]
    show ?thesis
    proof (cases "contents fs (ruta_txt q)")
      case None
      then show ?thesis
        using img by (auto simp: leer_texto_missing)
    next
      case (Some datos')
      obtain s where s: "leer_texto fs (ruta_txt q) = Inr s"
        using leer_texto_read [OF Some] by blast
      have "p \<in> set resto"
        using Cons.prems Some \<open>contents fs (ruta_img q) = Some datos\<close> by auto
      from Cons.IH [OF this Cons.prems(2)] obtain ruta where
        "procesar_pares fs resto = Inl (OSError ruta)" "contents fs ruta = None"
        "ruta \<in> ruta_img ` set resto \<union> ruta_txt ` set resto"
        by blast
      then show ?thesis
        using img s by auto
    qed
  qed
qed

text \<open>
  Claim C9. If the image or the text of any of the pairs cannot be read,
  \<open>generar_html\<close> ends with the \<open>OSError\<close> of a file of the pairs that cannot be read, and
  the file system is as it was: the output file has not been opened, let alone written.
\<close>

theorem generar_html_no_partial_output:
  assumes "p \<in> set pares"
    and "contents fs (ruta_img p) = None \<or> contents fs (ruta_txt p) = None"
  shows "\<exists>ruta. generar_html cabecera pie fs pares ruta_salida = (Inl (OSError ruta), fs)
           \<and> contents fs ruta = None
           \<and> ruta \<in> ruta_img ` set pares \<union> ruta_txt ` set pares"
proof -
  obtain ruta where
    "procesar_pares fs pares = Inl (OSError ruta)" "contents fs ruta = None"
    "ruta \<in> ruta_img ` set pares \<union> ruta_txt ` set pares"
    using procesar_pares_unreadable [OF assms] by blast
  then show ?thesis
    by (auto simp: generar_html_def)
qed

theorem generar_html_no_partial_output_witness:
  "generar_html (ascii ''<script>'') (ascii ''</script>'') fs_falta pares_falta
      (Path (ascii ''out'') (ascii ''visor.html''))
     = (Inl (OSError (Path (ascii ''txt'') (ascii ''b.txt''))), fs_falta)"
proof -
  let ?b = "\<lparr>nombre = ascii ''b'', ruta_img = Path (ascii ''img'') (ascii ''b.jpg''),
              ruta_txt = Path (ascii ''txt'') (ascii ''b.txt'')\<rparr>"
  let ?g = "generar_html (ascii ''<script>'') (ascii ''</script>'') fs_falta pares_falta
      (Path (ascii ''out'') (ascii ''visor.html''))"
  have m: "?b \<in> set pares_falta"
    by (simp add: pares_falta_def)
  have u: "contents fs_falta (ruta_img ?b) = None \<or> contents fs_falta (ruta_txt ?b) = None"
    by (simp add: fs_falta_def ascii_def)
  have "\<exists>ruta. ?g = (Inl (OSError ruta), fs_falta) \<and> contents fs_falta ruta = None
          \<and> ruta \<in> ruta_img ` set pares_falta \<union> ruta_txt ` set pares_falta"
    by (rule generar_html_no_partial_output [OF m u])
  then obtain ruta where
    grn: "?g = (Inl (OSError ruta), fs_falta) \<and> contents fs_falta ruta = None
          \<and> ruta \<in> ruta_img ` set pares_falta \<union> ruta_txt ` set pares_falta" ..
  note g = grn [THEN conjunct1]
    and n = grn [THEN conjunct2, THEN conjunct1]
    and r = grn [THEN conjunct2, THEN conjunct2]
  have c: "contents fs_falta (Path (ascii ''img'') (ascii ''a.jpg'')) \<noteq> None"
    "contents fs_falta (Path (ascii ''txt'') (ascii ''a.txt'')) \<noteq> None"
    "contents fs_falta (Path (ascii ''img'') (ascii ''b.jpg'')) \<noteq> None"
    by (simp_all add: fs_falta_def ascii_def)
  have d: "ruta = Path (ascii ''img'') (ascii ''a.jpg'') \<or> ruta = Path (ascii ''txt'') (ascii ''a.txt'')
      \<or> ruta = Path (ascii ''img'') (ascii ''b.jpg'') \<or> ruta = Path (ascii ''txt'') (ascii ''b.txt'')"
    using r unfolding pares_falta_def by auto
  have "ruta \<noteq> Path (ascii ''img'') (ascii ''a.jpg'')"
    "ruta \<noteq> Path (ascii ''txt'') (ascii ''a.txt'')"
    "ruta \<noteq> Path (ascii ''img'') (ascii ''b.jpg'')"
    using n c by (metis)+
  with d have "ruta = Path (ascii ''txt'') (ascii ''b.txt'')"
    by (elim disjE) (simp_all only: simp_thms)
  then show ?thesis
    using g by (simp only:)
qed

text \<open>
  When every file of the pairs can be read, the loop raises nothing and gives one entry
  for each pair, in order, built from the name of the pair, the encoded image and the
  text read.
\<close>

lemma procesar_pares_readable:
  assumes "\<forall>p\<in>set pares. contents fs (ruta_img p) \<noteq> None \<and> contents fs (ruta_txt p) \<noteq> None"
  shows "\<exists>paginas. procesar_pares fs pares = Inr paginas \<and>
           list_all2 (\<lambda>p pagina. \<exists>b64 texto.
                        imagen_a_base64 fs (ruta_img p) = Inr b64 \<and>
                        leer_texto fs (ruta_txt p) = Inr texto \<and>
                        pagina = pagina_js (nombre p) b64 texto) pares paginas"
  using assms
proof (induction pares)
  case Nil
  show ?case by simp
next
  case (Cons q resto)
  from Cons.prems obtain datos datos' where
    c: "contents fs (ruta_img q) = Some datos" "contents fs (ruta_txt q) = Some datos'"
    by auto
  obtain texto where t: "leer_texto fs (ruta_txt q) = Inr texto"
    using leer_texto_read [OF c(2)] by blast
  note i = imagen_a_base64_read [OF c(1)]
  from Cons obtain paginas where
    r: "procesar_pares fs resto = Inr paginas"
    and l: "list_all2 (\<lambda>p pagina. \<exists>b64 texto.
                        imagen_a_base64 fs (ruta_img p) = Inr b64 \<and>
                        leer_texto fs (ruta_txt p) = Inr texto \<and>
                        pagina = pagina_js (nombre p) b64 texto) resto paginas"
    by auto
  have "procesar_pares fs (q # resto) =
      Inr (pagina_js (nombre q) (map unat (b64encode datos)) texto # paginas)"
    by (simp add: i t r)
  moreover have "list_all2 (\<lambda>p pagina. \<exists>b64 texto.
                        imagen_a_base64 fs (ruta_img p) = Inr b64 \<and>
                        leer_texto fs (ruta_txt p) = Inr texto \<and>
                        pagina = pagina_js (nombre p) b64 texto) (q # resto)
      (pagina_js (nombre q) (map unat (b64encode datos)) texto # paginas)"
    using l by (simp add: i t)
  ultimately show ?case
    by blast
qed

text \<open>
  Claim C8. In the document that \<open>generar_html\<close> writes, the entry of every pair holds
  the name of the pair with \<open>&\<close>, \<open><\<close>, \<open>>\<close> and the two quotes replaced by their
  character references and every other character as it is, a backslash, a backtick and a
  dollar sign included: the name gets the markup pass and no other, between the backticks
  where the text of the page gets both passes.
\<close>

theorem nombre_markup_escape_only:
  assumes "\<forall>p\<in>set pares. contents fs (ruta_img p) \<noteq> None \<and> contents fs (ruta_txt p) \<noteq> None"
  shows \<open>\<exists>paginas. procesar_pares fs pares = Inr paginas
       \<and> generar_html cabecera pie fs pares ruta_salida =
           write_text fs ruta_salida (cabecera @ str_join (ascii '','' @ [10]) paginas @ pie)
       \<and> list_all2 (\<lambda>p pagina. \<exists>b64 texto.
             imagen_a_base64 fs (ruta_img p) = Inr b64 \<and>
             leer_texto fs (ruta_txt p) = Inr texto \<and>
             pagina =
               ascii ''  {'' @ [10] @
               ascii ''    nombre: `'' @
               concat (map (\<lambda>c. if c = 38 then ascii ''&amp;'' else if c = 60 then ascii ''&lt;''
                                else if c = 62 then ascii ''&gt;'' else if c = 34 then ascii ''&quot;''
                                else if c = 39 then ascii ''&#x27;'' else [c]) (nombre p)) @
               ascii ''`,'' @ [10] @
               ascii ''    imagen: "data:image/jpeg;base64,'' @ b64 @ ascii ''",'' @ [10] @
               ascii ''    texto: `'' @ texto_js texto @ ascii ''`'' @ [10] @
               ascii ''  }'') pares paginas\<close>
proof -
  obtain paginas where
    r: "procesar_pares fs pares = Inr paginas"
    and l: "list_all2 (\<lambda>p pagina. \<exists>b64 texto.
                        imagen_a_base64 fs (ruta_img p) = Inr b64 \<and>
                        leer_texto fs (ruta_txt p) = Inr texto \<and>
                        pagina = pagina_js (nombre p) b64 texto) pares paginas"
    using procesar_pares_readable [OF assms] by blast
  have g: "generar_html cabecera pie fs pares ruta_salida =
      write_text fs ruta_salida (cabecera @ str_join (ascii '','' @ [10]) paginas @ pie)"
    by (simp add: generar_html_def r)
  show ?thesis
    using r g l unfolding pagina_js_def html_escape_concat by blast
qed

theorem nombre_markup_escape_only_witness:
  \<open>procesar_pares fs_falta [par_raro] =
     Inr [ascii ''  {'' @ [10] @
          ascii ''    nombre: `R&amp;D &lt;a&gt; &quot;q&quot; `${x}`&#x27;'' @ [92] @ ascii ''`,'' @ [10] @
          ascii ''    imagen: "data:image/jpeg;base64,/9g=",'' @ [10] @
          ascii ''    texto: `a`'' @ [10] @
          ascii ''  }'']\<close>
proof -
  have ci: "contents fs_falta (ruta_img par_raro) = Some [0xFF, 0xD8]"
    and ct: "contents fs_falta (ruta_txt par_raro) = Some [0x61]"
    by (simp_all add: par_raro_def fs_falta_def ascii_def)
  have h: "\<forall>p\<in>set [par_raro].
      contents fs_falta (ruta_img p) \<noteq> None \<and> contents fs_falta (ruta_txt p) \<noteq> None"
    using ci ct by simp
  have b: "imagen_a_base64 fs_falta (ruta_img par_raro) = Inr (ascii ''/9g='')"
    unfolding imagen_a_base64_read [OF ci]
    by (simp add: b64_char_def b64_alphabet_def ascii_def)
  have t: "leer_texto fs_falta (ruta_txt par_raro) = Inr (ascii ''a'')"
    unfolding leer_texto_value [OF ct]
    by (simp add: utf8_first_def ascii_def)
  have tj: "texto_js (ascii ''a'') = ascii ''a''"
    by (simp add: texto_js_def html_escape_Cons html_escape_Nil escape_js_Cons escape_js_Nil
        ascii_def)
  have n: \<open>concat (map (\<lambda>c. if c = 38 then ascii ''&amp;'' else if c = 60 then ascii ''&lt;''
                                else if c = 62 then ascii ''&gt;'' else if c = 34 then ascii ''&quot;''
                                else if c = 39 then ascii ''&#x27;'' else [c]) (nombre par_raro))
      = ascii ''R&amp;D &lt;a&gt; &quot;q&quot; `${x}`&#x27;'' @ [92]\<close>
    by (simp add: par_raro_def ascii_def)
  obtain paginas where
    r: "procesar_pares fs_falta [par_raro] = Inr paginas"
    and l: \<open>list_all2 (\<lambda>p pagina. \<exists>b64 texto.
             imagen_a_base64 fs_falta (ruta_img p) = Inr b64 \<and>
             leer_texto fs_falta (ruta_txt p) = Inr texto \<and>
             pagina =
               ascii ''  {'' @ [10] @
               ascii ''    nombre: `'' @
               concat (map (\<lambda>c. if c = 38 then ascii ''&amp;'' else if c = 60 then ascii ''&lt;''
                                else if c = 62 then ascii ''&gt;'' else if c = 34 then ascii ''&quot;''
                                else if c = 39 then ascii ''&#x27;'' else [c]) (nombre p)) @
               ascii ''`,'' @ [10] @
               ascii ''    imagen: "data:image/jpeg;base64,'' @ b64 @ ascii ''",'' @ [10] @
               ascii ''    texto: `'' @ texto_js texto @ ascii ''`'' @ [10] @
               ascii ''  }'') [par_raro] paginas\<close>
    using nombre_markup_escape_only [OF h] by blast
  from l obtain pagina where
    ps: "paginas = [pagina]"
    and pg: \<open>\<exists>b64 texto.
             imagen_a_base64 fs_falta (ruta_img par_raro) = Inr b64 \<and>
             leer_texto fs_falta (ruta_txt par_raro) = Inr texto \<and>
             pagina =
               ascii ''  {'' @ [10] @
               ascii ''    nombre: `'' @
               concat (map (\<lambda>c. if c = 38 then ascii ''&amp;'' else if c = 60 then ascii ''&lt;''
                                else if c = 62 then ascii ''&gt;'' else if c = 34 then ascii ''&quot;''
                                else if c = 39 then ascii ''&#x27;'' else [c]) (nombre par_raro)) @
               ascii ''`,'' @ [10] @
               ascii ''    imagen: "data:image/jpeg;base64,'' @ b64 @ ascii ''",'' @ [10] @
               ascii ''    texto: `'' @ texto_js texto @ ascii ''`'' @ [10] @
               ascii ''  }''\<close>
    by (auto simp: list_all2_Cons1)
  from pg obtain b64 texto where
    bb: "imagen_a_base64 fs_falta (ruta_img par_raro) = Inr b64"
    and tt: "leer_texto fs_falta (ruta_txt par_raro) = Inr texto"
    and pp: \<open>pagina =
               ascii ''  {'' @ [10] @
               ascii ''    nombre: `'' @
               concat (map (\<lambda>c. if c = 38 then ascii ''&amp;'' else if c = 60 then ascii ''&lt;''
                                else if c = 62 then ascii ''&gt;'' else if c = 34 then ascii ''&quot;''
                                else if c = 39 then ascii ''&#x27;'' else [c]) (nombre par_raro)) @
               ascii ''`,'' @ [10] @
               ascii ''    imagen: "data:image/jpeg;base64,'' @ b64 @ ascii ''",'' @ [10] @
               ascii ''    texto: `'' @ texto_js texto @ ascii ''`'' @ [10] @
               ascii ''  }''\<close>
    by blast
  have b64: "b64 = ascii ''/9g=''"
    using bb unfolding b by simp
  have texto: "texto = ascii ''a''"
    using tt unfolding t by simp
  have \<open>pagina =
          ascii ''  {'' @ [10] @
          ascii ''    nombre: `R&amp;D &lt;a&gt; &quot;q&quot; `${x}`&#x27;'' @ [92] @ ascii ''`,'' @ [10] @
          ascii ''    imagen: "data:image/jpeg;base64,/9g=",'' @ [10] @
          ascii ''    texto: `a`'' @ [10] @
          ascii ''  }''\<close>
    unfolding pp n b64 texto tj by (simp add: ascii_def)
  then show ?thesis
    using r ps by simp
qed

end
